theory Spec2Isabelle
  imports Complex_Main "HOL-Library.AList"
begin

section \<open>The JavaScript values the controller computes with\<close>

text \<open>
  The program is the AngularJS controller \<^verbatim>\<open>WeatherCtrl\<close> of \<^verbatim>\<open>static/app.js\<close>.
  A JavaScript number that holds an integer, \<^verbatim>\<open>Infinity\<close> or \<^verbatim>\<open>NaN\<close> is a
  \<open>number\<close>; these are the only numbers the forecast helpers meet (timestamps,
  calendar fields, hours, and the initial \<^verbatim>\<open>bestDiff = Infinity\<close>).
  Arithmetic with \<^verbatim>\<open>NaN\<close> gives \<^verbatim>\<open>NaN\<close> and every comparison with
  \<^verbatim>\<open>NaN\<close> is false.
\<close>

datatype number = Num int | Infinity | NaN

fun num_add :: "number \<Rightarrow> int \<Rightarrow> number" where
  "num_add (Num a) b = Num (a + b)"
| "num_add Infinity b = Infinity"
| "num_add NaN b = NaN"

fun num_sub :: "number \<Rightarrow> int \<Rightarrow> number" where
  "num_sub (Num a) b = Num (a - b)"
| "num_sub Infinity b = Infinity"
| "num_sub NaN b = NaN"

fun num_abs :: "number \<Rightarrow> number" where
  "num_abs (Num a) = Num \<bar>a\<bar>"
| "num_abs Infinity = Infinity"
| "num_abs NaN = NaN"

fun num_less :: "number \<Rightarrow> number \<Rightarrow> bool" where
  "num_less (Num a) (Num b) = (a < b)"
| "num_less (Num a) Infinity = True"
| "num_less Infinity b = False"
| "num_less NaN b = False"
| "num_less a NaN = False"

text \<open>
  Number to string, as string concatenation \<^verbatim>\<open>n + "-"\<close> performs it: the decimal
  digits of an integer, with a minus sign when it is negative. (JavaScript writes an
  integer this way below \<open>10^21\<close>; the years, months and days converted here are far
  smaller.)
\<close>

fun nat_digits :: "nat \<Rightarrow> string" where
  "nat_digits n =
     (if n < 10 then [''0123456789'' ! n]
      else nat_digits (n div 10) @ [''0123456789'' ! (n mod 10)])"

declare nat_digits.simps [simp del]

definition int_digits :: "int \<Rightarrow> string" where
  "int_digits i = (if i < 0 then CHR ''-'' # nat_digits (nat (- i)) else nat_digits (nat i))"

fun toString :: "number \<Rightarrow> string" where
  "toString (Num i) = int_digits i"
| "toString Infinity = ''Infinity''"
| "toString NaN = ''NaN''"

subsection \<open>Dates and the viewer's clock\<close>

text \<open>
  A \<^verbatim>\<open>Date\<close> object is its time value, milliseconds since the epoch, or invalid:
  \<^verbatim>\<open>new Date(ms)\<close> is invalid when \<open>ms\<close> lies outside \<open>\<plusminus>8.64e15\<close>. A timestamp
  \<^verbatim>\<open>item.dt\<close> is an integer number of seconds; the product \<^verbatim>\<open>item.dt * 1000\<close> is
  exact in double arithmetic whenever it lies inside that range, and lies outside it
  after rounding whenever the exact product does, so the product is taken over \<open>int\<close>.
\<close>

datatype date = Date int | InvalidDate

definition new_Date :: "int \<Rightarrow> date" where
  "new_Date ms = (if \<bar>ms\<bar> \<le> 8640000000000000 then Date ms else InvalidDate)"

text \<open>
  The local calendar fields of a time value depend on the time zone and the locale of
  the browser that runs the script. They are the parameter \<open>viewer\<close>:
  \<open>month_of\<close> counts from 0 as \<^verbatim>\<open>getMonth\<close> does, \<open>short_date_of\<close> is the text
  \<^verbatim>\<open>toLocaleDateString(undefined, {weekday: "short", month: "short", day: "numeric"})\<close>
  gives.
\<close>

record viewer =
  year_of :: "int \<Rightarrow> int"
  month_of :: "int \<Rightarrow> nat"
  date_of :: "int \<Rightarrow> nat"
  hours_of :: "int \<Rightarrow> nat"
  short_date_of :: "int \<Rightarrow> string"

fun getFullYear :: "viewer \<Rightarrow> date \<Rightarrow> number" where
  "getFullYear v (Date t) = Num (year_of v t)"
| "getFullYear v InvalidDate = NaN"

fun getMonth :: "viewer \<Rightarrow> date \<Rightarrow> number" where
  "getMonth v (Date t) = Num (int (month_of v t))"
| "getMonth v InvalidDate = NaN"

fun getDate :: "viewer \<Rightarrow> date \<Rightarrow> number" where
  "getDate v (Date t) = Num (int (date_of v t))"
| "getDate v InvalidDate = NaN"

fun getHours :: "viewer \<Rightarrow> date \<Rightarrow> number" where
  "getHours v (Date t) = Num (int (hours_of v t))"
| "getHours v InvalidDate = NaN"

fun toLocaleDateString :: "viewer \<Rightarrow> date \<Rightarrow> string" where
  "toLocaleDateString v (Date t) = short_date_of v t"
| "toLocaleDateString v InvalidDate = ''Invalid Date''"

text \<open>
  One concrete viewer, for evaluating the model: a browser in the UTC time zone with
  the \<^verbatim>\<open>en-US\<close> locale. The civil date of a day number follows the proleptic
  Gregorian calendar, as ECMAScript's does.
\<close>

definition civil_from_days :: "int \<Rightarrow> int \<times> nat \<times> nat" where
  "civil_from_days n =
     (let z = n + 719468;
          era = z div 146097;
          doe = z - era * 146097;
          yoe = (doe - doe div 1460 + doe div 36524 - doe div 146096) div 365;
          doy = doe - (365 * yoe + yoe div 4 - yoe div 100);
          mp = (5 * doy + 2) div 153;
          d = doy - (153 * mp + 2) div 5 + 1;
          m = (if mp < 10 then mp + 3 else mp - 9);
          y = yoe + era * 400 + (if m \<le> 2 then 1 else 0)
      in (y, nat m, nat d))"

definition weekday_names :: "string list" where
  "weekday_names = [''Thu'', ''Fri'', ''Sat'', ''Sun'', ''Mon'', ''Tue'', ''Wed'']"

definition month_names :: "string list" where
  "month_names = [''Jan'', ''Feb'', ''Mar'', ''Apr'', ''May'', ''Jun'',
                  ''Jul'', ''Aug'', ''Sep'', ''Oct'', ''Nov'', ''Dec'']"

definition utc_en_US :: viewer where
  "utc_en_US =
     \<lparr>year_of = (\<lambda>t. fst (civil_from_days (t div 86400000))),
      month_of = (\<lambda>t. fst (snd (civil_from_days (t div 86400000))) - 1),
      date_of = (\<lambda>t. snd (snd (civil_from_days (t div 86400000)))),
      hours_of = (\<lambda>t. nat ((t mod 86400000) div 3600000)),
      short_date_of = (\<lambda>t.
         weekday_names ! nat ((t div 86400000) mod 7) @ '', '' @
         month_names ! (fst (snd (civil_from_days (t div 86400000))) - 1) @ '' '' @
         nat_digits (snd (snd (civil_from_days (t div 86400000)))))\<rparr>"

section \<open>The data model\<close>

text \<open>
  A forecast item is any object with a timestamp \<^verbatim>\<open>dt\<close> in seconds; the helpers read
  no other field, so the rest of the item is the record's extension.
\<close>

record sample =
  dt :: int

text \<open>A day bucket, as \<^verbatim>\<open>buildGroupedForecast\<close> builds it.\<close>

record 'a bucket =
  label :: string
  items :: "'a list"

text \<open>
  A time slot. \<^verbatim>\<open>findForecastForSlot\<close> guards against a slot without \<^verbatim>\<open>hours\<close>,
  so the field is optional. String literals are the bytes of the source file (UTF-8).
\<close>

record slot =
  slot_label :: string
  hours :: "int list option"

definition buildTimeSlots :: "slot list" where
  "buildTimeSlots =
     [\<lparr>slot_label = [CHR 0xF0, CHR 0x9F, CHR 0x8C, CHR 0x85] @ '' Morning'',
       hours = Some [6, 9, 12]\<rparr>,
      \<lparr>slot_label = [CHR 0xE2, CHR 0x98, CHR 0x80, CHR 0xEF, CHR 0xB8, CHR 0x8F] @ '' Afternoon'',
       hours = Some [12, 15, 18]\<rparr>,
      \<lparr>slot_label = [CHR 0xF0, CHR 0x9F, CHR 0x8C, CHR 0x87] @ '' Evening'',
       hours = Some [18, 21]\<rparr>,
      \<lparr>slot_label = [CHR 0xF0, CHR 0x9F, CHR 0x8C, CHR 0x99] @ '' Night'',
       hours = Some [0, 3, 21, 23]\<rparr>]"

section \<open>Grouping by local day: \<^verbatim>\<open>buildGroupedForecast\<close>\<close>

text \<open>
  The local date key, \<^verbatim>\<open>getFullYear() + "-" + (getMonth() + 1) + "-" + getDate()\<close>.
\<close>

definition dayKey :: "viewer \<Rightarrow> date \<Rightarrow> string" where
  "dayKey v d =
     toString (getFullYear v d) @ ''-'' @ toString (num_add (getMonth v d) 1) @ ''-'' @
     toString (getDate v d)"

text \<open>
  The object \<^verbatim>\<open>grouped\<close> is an association list in insertion order:
  \<open>AList.update\<close> replaces the value of a key that is present and appends a key that
  is not, and \<open>AList.map_entry\<close> changes the value of a key in place. This is the
  property order \<^verbatim>\<open>Object.values\<close> follows for keys that are not array indices;
  every key here contains the character \<^verbatim>\<open>-\<close> (\<open>dayKey_has_minus\<close> below), so
  none is an array index and none names a property of \<^verbatim>\<open>Object.prototype\<close>.
  \<open>group_item\<close> is the body of the \<^verbatim>\<open>forEach\<close> callback.
\<close>

definition group_item ::
  "viewer \<Rightarrow> 'a sample_scheme \<Rightarrow> (string \<times> 'a sample_scheme bucket) list
     \<Rightarrow> (string \<times> 'a sample_scheme bucket) list" where
  "group_item v item grouped =
     (let d = new_Date (dt item * 1000);
          k = dayKey v d;
          grouped1 =
            (case map_of grouped k of
               None \<Rightarrow> AList.update k \<lparr>label = toLocaleDateString v d, items = []\<rparr> grouped
             | Some b \<Rightarrow> grouped)
      in AList.map_entry k (\<lambda>b. b\<lparr>items := items b @ [item]\<rparr>) grouped1)"

text \<open>
  The argument is \<open>None\<close> for \<^verbatim>\<open>null\<close> or \<^verbatim>\<open>undefined\<close>. The loop is a fold over
  the list; \<^verbatim>\<open>Object.values(grouped).slice(0, 5)\<close> keeps the first five values.
\<close>

definition buildGroupedForecast ::
  "viewer \<Rightarrow> 'a sample_scheme list option \<Rightarrow> 'a sample_scheme bucket list" where
  "buildGroupedForecast v list =
     (case list of
        None \<Rightarrow> []
      | Some xs \<Rightarrow> take 5 (map snd (fold (group_item v) xs [])))"

section \<open>Matching a slot: \<^verbatim>\<open>vm.findForecastForSlot\<close>\<close>

text \<open>
  The body of the inner \<^verbatim>\<open>forEach\<close>: the state is the pair of the variables
  \<^verbatim>\<open>best\<close> and \<^verbatim>\<open>bestDiff\<close>, \<open>h\<close> is the local hour of the item \<open>it\<close> and
  \<open>sh\<close> a slot hour.
\<close>

definition consider_hour ::
  "'a \<Rightarrow> number \<Rightarrow> int \<Rightarrow> 'a option \<times> number \<Rightarrow> 'a option \<times> number" where
  "consider_hour it h sh st =
     (let diff = num_abs (num_sub h sh)
      in if num_less diff (snd st) then (Some it, diff) else st)"

text \<open>The body of the outer \<^verbatim>\<open>forEach\<close>.\<close>

definition consider_item ::
  "viewer \<Rightarrow> int list \<Rightarrow> 'a sample_scheme
     \<Rightarrow> 'a sample_scheme option \<times> number \<Rightarrow> 'a sample_scheme option \<times> number" where
  "consider_item v hs it st =
     (let h = getHours v (new_Date (dt it * 1000))
      in fold (consider_hour it h) hs st)"

text \<open>
  \<open>None\<close> as \<open>its\<close> is a \<^verbatim>\<open>null\<close> or \<^verbatim>\<open>undefined\<close> list of items, \<open>None\<close> as the
  result is \<^verbatim>\<open>null\<close>.
\<close>

definition findForecastForSlot ::
  "viewer \<Rightarrow> 'a sample_scheme list option \<Rightarrow> slot \<Rightarrow> 'a sample_scheme option" where
  "findForecastForSlot v its sl =
     (case its of
        None \<Rightarrow> None
      | Some xs \<Rightarrow>
          (case hours sl of
             None \<Rightarrow> None
           | Some hs \<Rightarrow> fst (fold (consider_item v hs) xs (None, Infinity))))"

section \<open>The controller's state\<close>

text \<open>
  The place of a response: each field is a string or absent (\<^verbatim>\<open>undefined\<close> or
  \<^verbatim>\<open>null\<close>).
\<close>

record place =
  name :: "string option"
  state :: "string option"
  country :: "string option"

record 'a forecast =
  list_of :: "'a list option"

text \<open>
  A response of the server, \<^verbatim>\<open>{forecast, current, place}\<close>; each part may be
  missing. The current conditions are opaque: the controller only tests that they are
  there.
\<close>

record ('a, 'c) payload =
  forecast :: "'a forecast option"
  current :: "'c option"
  place :: "place option"

record ('a, 'c) vm =
  query :: string
  units :: string
  loading :: bool
  error :: "string option"
  data :: "('a, 'c) payload"
  groupedForecast :: "'a bucket list"
  slots :: "slot list"

text \<open>The value \<^verbatim>\<open>{ forecast: { list: [] }, current: null, place: null }\<close>.\<close>

definition empty_data :: "('a, 'c) payload" where
  "empty_data = \<lparr>forecast = Some \<lparr>list_of = Some []\<rparr>, current = None, place = None\<rparr>"

text \<open>The controller as its constructor leaves it, before the initial search.\<close>

definition initial_vm :: "('a, 'c) vm" where
  "initial_vm =
     \<lparr>query = ''Sagar,IN'', units = ''metric'', loading = False, error = None,
      data = empty_data, groupedForecast = [], slots = []\<rparr>"

section \<open>Labels: \<^verbatim>\<open>vm.placeName\<close> and \<^verbatim>\<open>vm.unitsLabel\<close>\<close>

text \<open>
  \<^verbatim>\<open>Boolean\<close> on a string or an absent value, and \<^verbatim>\<open>Array.prototype.join\<close>, which
  writes an absent element as the empty string.
\<close>

definition Boolean :: "string option \<Rightarrow> bool" where
  "Boolean x = (case x of None \<Rightarrow> False | Some s \<Rightarrow> s \<noteq> [])"

definition element_text :: "string option \<Rightarrow> string" where
  "element_text x = (case x of None \<Rightarrow> [] | Some s \<Rightarrow> s)"

fun join :: "string \<Rightarrow> string option list \<Rightarrow> string" where
  "join sep [] = []"
| "join sep [x] = element_text x"
| "join sep (x # y # ys) = element_text x @ sep @ join sep (y # ys)"

definition placeName :: "('a, 'c) vm \<Rightarrow> string" where
  "placeName m =
     (let p = (case place (data m) of
                 None \<Rightarrow> \<lparr>name = None, state = None, country = None\<rparr>
               | Some q \<Rightarrow> q);
          s = join '', '' (filter Boolean [name p, state p, country p])
      in if s \<noteq> [] then s else ''Your location'')"

text \<open>The degree sign is the two bytes it has in the source file.\<close>

definition unitsLabel :: "('a, 'c) vm \<Rightarrow> string" where
  "unitsLabel m =
     (if units m = ''imperial'' then [CHR 0xC2, CHR 0xB0] @ ''F''
      else if units m = ''standard'' then ''K''
      else [CHR 0xC2, CHR 0xB0] @ ''C'')"

section \<open>Colouring a temperature: \<^verbatim>\<open>vm.tempStyle\<close>\<close>

text \<open>
  A temperature is a finite double, modelled as a real number. Every arithmetic
  operation of the source rounds its exact result to a double; \<open>rnd\<close> stands for that
  rounding (\<^verbatim>\<open>Math.max\<close> and \<^verbatim>\<open>Math.min\<close> do not round). IEEE 754 rounding to
  nearest is monotone and leaves the integers up to \<open>2^53\<close> unchanged, which is all the
  theorems below ask of it.
\<close>

definition rounding :: "(real \<Rightarrow> real) \<Rightarrow> bool" where
  "rounding rnd \<longleftrightarrow>
     (\<forall>x y. x \<le> y \<longrightarrow> rnd x \<le> rnd y) \<and>
     (\<forall>k::int. \<bar>k\<bar> \<le> 9007199254740992 \<longrightarrow> rnd (of_int k) = of_int k)"

text \<open>
  The bounds \<^verbatim>\<open>min\<close> and \<^verbatim>\<open>max\<close> the \<^verbatim>\<open>if\<close> chain on \<^verbatim>\<open>vm.units\<close> assigns.
  \<^verbatim>\<open>vm.units\<close> is a string; the comparisons are \<^verbatim>\<open>===\<close> with string literals.
\<close>

definition bounds :: "('a, 'c) vm \<Rightarrow> real \<times> real" where
  "bounds m =
     (if units m = ''imperial'' then (- 20, 110)
      else if units m = ''metric'' then (- 10, 45)
      else (260, 320))"

text \<open>The local \<^verbatim>\<open>hue\<close>, from \<^verbatim>\<open>clamped\<close> and \<^verbatim>\<open>ratio\<close>.\<close>

definition hue :: "(real \<Rightarrow> real) \<Rightarrow> ('a, 'c) vm \<Rightarrow> real \<Rightarrow> real" where
  "hue rnd m temp =
     (let (mn, mx) = bounds m;
          clamped = max mn (min temp mx);
          ratio = rnd (rnd (clamped - mn) / rnd (mx - mn))
      in rnd (rnd (1 - ratio) * 220))"

text \<open>
  The style object is the list of its properties; \<open>None\<close> is a temperature that is
  \<^verbatim>\<open>null\<close> or \<^verbatim>\<open>undefined\<close>. \<open>str\<close> is the text of a double in a template
  literal.
\<close>

definition tempStyle ::
  "(real \<Rightarrow> real) \<Rightarrow> (real \<Rightarrow> string) \<Rightarrow> ('a, 'c) vm \<Rightarrow> real option \<Rightarrow> (string \<times> string) list" where
  "tempStyle rnd str m temp =
     (case temp of
        None \<Rightarrow> []
      | Some t \<Rightarrow>
          [(''color'', ''hsl('' @ str (hue rnd m t) @ '', 70%, 25%)''),
           (''background-color'', ''hsl('' @ str (hue rnd m t) @ '', 85%, 90%)''),
           (''border-radius'', ''0.25rem''),
           (''padding'', ''0.25rem'')])"

section \<open>Searching: \<^verbatim>\<open>vm.search\<close>\<close>

text \<open>
  What a rejected promise carries: the response of a failed request, with the text
  \<^verbatim>\<open>err.data.error\<close> when the response has one, or the \<^verbatim>\<open>TypeError\<close> thrown inside
  the \<^verbatim>\<open>then\<close> callback when it reads \<^verbatim>\<open>data.forecast.list\<close> of a response without
  \<^verbatim>\<open>forecast\<close>.
\<close>

datatype failure = Response "string option" | TypeError

text \<open>How the promise of \<^verbatim>\<open>WeatherApi.fetchByCity\<close> settles.\<close>

datatype ('a, 'c) outcome = Resolved "('a, 'c) payload option" | Rejected failure

text \<open>The statements of \<^verbatim>\<open>vm.search\<close> before the request.\<close>

definition search_begin :: "('a, 'c) vm \<Rightarrow> ('a, 'c) vm" where
  "search_begin m = m\<lparr>loading := True, error := None\<rparr>"

text \<open>
  The branch of the \<^verbatim>\<open>then\<close> callback for \<^verbatim>\<open>!data || !data.current\<close>.
\<close>

definition no_data :: "('a, 'c) vm \<Rightarrow> ('a, 'c) vm" where
  "no_data m =
     m\<lparr>error := Some ''No weather data found.'', data := empty_data,
       groupedForecast := [], slots := []\<rparr>"

text \<open>
  The \<^verbatim>\<open>then\<close> callback: the new state and the exception it throws, if any. The
  assignment \<^verbatim>\<open>vm.data = data\<close> is made before \<^verbatim>\<open>data.forecast.list\<close> is read.
\<close>

definition on_fulfilled ::
  "viewer \<Rightarrow> ('a sample_scheme, 'c) payload option \<Rightarrow> ('a sample_scheme, 'c) vm
     \<Rightarrow> ('a sample_scheme, 'c) vm \<times> failure option" where
  "on_fulfilled v d m =
     (case d of
        None \<Rightarrow> (no_data m, None)
      | Some p \<Rightarrow>
          (case current p of
             None \<Rightarrow> (no_data m, None)
           | Some c \<Rightarrow>
               (case forecast p of
                  None \<Rightarrow> (m\<lparr>data := p\<rparr>, Some TypeError)
                | Some f \<Rightarrow>
                    (m\<lparr>data := p,
                       groupedForecast := buildGroupedForecast v (list_of f),
                       slots := buildTimeSlots\<rparr>, None))))"

text \<open>The \<^verbatim>\<open>catch\<close> callback.\<close>

definition on_rejected :: "failure \<Rightarrow> ('a, 'c) vm \<Rightarrow> ('a, 'c) vm" where
  "on_rejected err m =
     m\<lparr>error := Some (case err of
                        Response (Some msg) \<Rightarrow> if msg \<noteq> [] then msg else ''Failed to load weather.''
                      | Response None \<Rightarrow> ''Failed to load weather.''
                      | TypeError \<Rightarrow> ''Failed to load weather.'')\<rparr>"

text \<open>The \<^verbatim>\<open>finally\<close> callback.\<close>

definition on_finally :: "('a, 'c) vm \<Rightarrow> ('a, 'c) vm" where
  "on_finally m = m\<lparr>loading := False\<rparr>"

text \<open>The promise chain \<^verbatim>\<open>.then(...).catch(...).finally(...)\<close> once the request settles.\<close>

definition search_settle ::
  "viewer \<Rightarrow> ('a sample_scheme, 'c) outcome \<Rightarrow> ('a sample_scheme, 'c) vm
     \<Rightarrow> ('a sample_scheme, 'c) vm" where
  "search_settle v out m =
     on_finally
       (case out of
          Resolved d \<Rightarrow>
            (case on_fulfilled v d m of
               (m1, None) \<Rightarrow> m1
             | (m1, Some err) \<Rightarrow> on_rejected err m1)
        | Rejected err \<Rightarrow> on_rejected err m)"

text \<open>One search attempt, from the call to the settled promise.\<close>

definition search ::
  "viewer \<Rightarrow> ('a sample_scheme, 'c) outcome \<Rightarrow> ('a sample_scheme, 'c) vm
     \<Rightarrow> ('a sample_scheme, 'c) vm" where
  "search v out m = search_settle v out (search_begin m)"

section \<open>Notions the properties are stated with\<close>

subsection \<open>Grouping\<close>

text \<open>The distinct elements of a list, in the order of their first occurrence.\<close>

fun first_seen :: "'k list \<Rightarrow> 'k list" where
  "first_seen [] = []"
| "first_seen (k # ks) = k # first_seen (removeAll k ks)"

text \<open>
  The day key \<^verbatim>\<open>buildGroupedForecast\<close> computes for an item, the items of a list
  with a given key, and the bucket of a key of the list: its label comes from the
  first item with that key.
\<close>

definition itemKey :: "viewer \<Rightarrow> 'a sample_scheme \<Rightarrow> string" where
  "itemKey v x = dayKey v (new_Date (dt x * 1000))"

definition with_key :: "viewer \<Rightarrow> string \<Rightarrow> 'a sample_scheme list \<Rightarrow> 'a sample_scheme list" where
  "with_key v k xs = filter (\<lambda>x. itemKey v x = k) xs"

definition bucket_of_key ::
  "viewer \<Rightarrow> 'a sample_scheme list \<Rightarrow> string \<Rightarrow> 'a sample_scheme bucket" where
  "bucket_of_key v xs k =
     \<lparr>label = (case with_key v k xs of
                 [] \<Rightarrow> []
               | x # ys \<Rightarrow> toLocaleDateString v (new_Date (dt x * 1000))),
      items = with_key v k xs\<rparr>"

definition grouped_by_key ::
  "viewer \<Rightarrow> 'a sample_scheme list \<Rightarrow> (string \<times> 'a sample_scheme bucket) list" where
  "grouped_by_key v xs =
     map (\<lambda>k. (k, bucket_of_key v xs k)) (first_seen (map (itemKey v) xs))"

text \<open>
  The viewer-local calendar day of an item: the year, the month (from 1) and the day
  of the month, or \<open>None\<close> when the timestamp is outside the range of \<^verbatim>\<open>Date\<close>.
  \<open>key_of_day\<close> is the key of a day, \<open>on_day\<close> the items of a list that fall on it.
\<close>

definition localDay :: "viewer \<Rightarrow> 'a sample_scheme \<Rightarrow> (int \<times> nat \<times> nat) option" where
  "localDay v x =
     (case new_Date (dt x * 1000) of
        InvalidDate \<Rightarrow> None
      | Date t \<Rightarrow> Some (year_of v t, month_of v t + 1, date_of v t))"

fun key_of_day :: "(int \<times> nat \<times> nat) option \<Rightarrow> string" where
  "key_of_day None = ''NaN-NaN-NaN''"
| "key_of_day (Some (y, m, d)) = int_digits y @ ''-'' @ nat_digits m @ ''-'' @ nat_digits d"

definition on_day ::
  "viewer \<Rightarrow> (int \<times> nat \<times> nat) option \<Rightarrow> 'a sample_scheme list \<Rightarrow> 'a sample_scheme list" where
  "on_day v d xs = filter (\<lambda>x. localDay v x = d) xs"

text \<open>
  The positions of the buckets of \<open>out\<close> that hold an item of day \<open>d\<close>, and the
  property that the items of day \<open>d\<close> are in exactly one bucket, in the order they
  have in the input \<open>xs\<close>.
\<close>

definition holders ::
  "viewer \<Rightarrow> 'a sample_scheme bucket list \<Rightarrow> (int \<times> nat \<times> nat) option \<Rightarrow> nat list" where
  "holders v out d =
     filter (\<lambda>j. list_ex (\<lambda>x. localDay v x = d) (items (out ! j))) [0..<length out]"

definition in_one_bucket ::
  "viewer \<Rightarrow> 'a sample_scheme list \<Rightarrow> 'a sample_scheme bucket list
     \<Rightarrow> (int \<times> nat \<times> nat) option \<Rightarrow> bool" where
  "in_one_bucket v xs out d =
     (case holders v out d of
        [j] \<Rightarrow> on_day v d (items (out ! j)) = on_day v d xs
      | _ \<Rightarrow> False)"

text \<open>The same for every local day of the input, of the result of the grouping.\<close>

definition every_day_in_one_bucket :: "viewer \<Rightarrow> 'a sample_scheme list \<Rightarrow> bool" where
  "every_day_in_one_bucket v xs =
     list_all (in_one_bucket v xs (buildGroupedForecast v (Some xs))) (map (localDay v) xs)"

text \<open>
  A forecast over six days of January 1970, the fifth item out of chronological
  order, and one over two days.
\<close>

definition two_days :: "sample list" where
  "two_days = [\<lparr>dt = 0\<rparr>, \<lparr>dt = 86400\<rparr>, \<lparr>dt = 10800\<rparr>]"

definition six_days :: "sample list" where
  "six_days =
     [\<lparr>dt = 0\<rparr>, \<lparr>dt = 86400\<rparr>, \<lparr>dt = 172800\<rparr>, \<lparr>dt = 259200\<rparr>, \<lparr>dt = 10800\<rparr>,
      \<lparr>dt = 345600\<rparr>, \<lparr>dt = 432000\<rparr>]"

subsection \<open>Slot matching\<close>

text \<open>
  The local hour of an item as \<^verbatim>\<open>findForecastForSlot\<close> reads it; it is \<open>NaN\<close> when
  the timestamp is outside the range of \<^verbatim>\<open>Date\<close>. \<open>hour_gap\<close> is the distance
  \<open>\<bar>sampleLocalHour - targetHour\<bar>\<close> of a pair of an item and a slot hour, and
  \<open>consider_pair\<close> the loop body at such a pair. \<open>List.product xs hs\<close> lists the
  pairs in the order the two loops visit them: items outside, hours inside.
\<close>

definition localHour :: "viewer \<Rightarrow> 'a sample_scheme \<Rightarrow> number" where
  "localHour v x = getHours v (new_Date (dt x * 1000))"

definition hour_gap :: "viewer \<Rightarrow> 'a sample_scheme \<times> int \<Rightarrow> int" where
  "hour_gap v p = \<bar>int (hours_of v (dt (fst p) * 1000)) - snd p\<bar>"

definition consider_pair ::
  "viewer \<Rightarrow> 'a sample_scheme \<times> int
     \<Rightarrow> 'a sample_scheme option \<times> number \<Rightarrow> 'a sample_scheme option \<times> number" where
  "consider_pair v p st = consider_hour (fst p) (localHour v (fst p)) (snd p) st"

text \<open>
  The items of a list that have a local hour, in their order. \<open>first_closest v xs hs r\<close>
  says that the result \<open>r\<close> is the item of a pair of \<open>xs\<close> and \<open>hs\<close> whose distance
  is minimal over all pairs, and that this pair is the first of minimal distance in
  iteration order: every earlier pair is strictly farther.
\<close>

definition dated :: "viewer \<Rightarrow> 'a sample_scheme list \<Rightarrow> 'a sample_scheme list" where
  "dated v xs = filter (\<lambda>x. localHour v x \<noteq> NaN) xs"

definition first_closest ::
  "viewer \<Rightarrow> 'a sample_scheme list \<Rightarrow> int list \<Rightarrow> 'a sample_scheme option \<Rightarrow> bool" where
  "first_closest v xs hs r \<longleftrightarrow>
     (\<exists>i < length (List.product xs hs).
        r = Some (fst (List.product xs hs ! i)) \<and>
        (\<forall>j < length (List.product xs hs).
            hour_gap v (List.product xs hs ! i) \<le> hour_gap v (List.product xs hs ! j)) \<and>
        (\<forall>j < i. hour_gap v (List.product xs hs ! i) < hour_gap v (List.product xs hs ! j)))"

subsection \<open>Labels and colours\<close>

text \<open>
  The components of a place that are present and not empty, in the order name, state,
  country.
\<close>

definition present :: "string option \<Rightarrow> string list" where
  "present x = (case x of None \<Rightarrow> [] | Some s \<Rightarrow> if s = [] then [] else [s])"

definition components :: "place option \<Rightarrow> string list" where
  "components po =
     (case po of
        None \<Rightarrow> []
      | Some p \<Rightarrow> present (name p) @ present (state p) @ present (country p))"

text \<open>
  Two stand-ins for evaluating the colour model at concrete temperatures: the text of
  a double that holds an integer, and a rounding to multiples of \<open>1/1024\<close>.
\<close>

definition floor_text :: "real \<Rightarrow> string" where
  "floor_text x = int_digits \<lfloor>x\<rfloor>"

definition round_1024 :: "real \<Rightarrow> real" where
  "round_1024 x = of_int (round (x * 1024)) / 1024"

section \<open>Properties of the grouping\<close>

subsection \<open>The fold builds one bucket per key, in the order of first occurrence\<close>

lemma dayKey_has_minus: "CHR ''-'' \<in> set (dayKey v d)"
  by (simp add: dayKey_def)

lemma first_seen_snoc:
  "first_seen (ks @ [k]) = first_seen ks @ (if k \<in> set ks then [] else [k])"
  by (induction ks rule: first_seen.induct) auto

lemma set_first_seen: "set (first_seen ks) = set ks"
  by (induction ks rule: first_seen.induct) auto

lemma distinct_first_seen: "distinct (first_seen ks)"
  by (induction ks rule: first_seen.induct) (auto simp: set_first_seen)

lemma length_first_seen: "length (first_seen ks) = card (set ks)"
  using distinct_card [OF distinct_first_seen, of ks] by (simp add: set_first_seen)

lemma update_fresh: "k \<notin> fst ` set al \<Longrightarrow> AList.update k b al = al @ [(k, b)]"
  by (induction al) auto

lemma map_entry_last:
  "k \<notin> fst ` set al \<Longrightarrow> AList.map_entry k f (al @ [(k, b)]) = al @ [(k, f b)]"
  by (induction al) auto

lemma map_entry_keyed:
  "distinct ks \<Longrightarrow>
   AList.map_entry k0 f (map (\<lambda>k. (k, g k)) ks) =
   map (\<lambda>k. (k, if k = k0 then f (g k) else g k)) ks"
  by (induction ks) auto

lemma map_of_keyed:
  "map_of (map (\<lambda>k. (k, g k)) ks) k0 = (if k0 \<in> set ks then Some (g k0) else None)"
  by (induction ks) auto

lemma with_key_snoc:
  "with_key v k (xs @ [x]) = with_key v k xs @ (if itemKey v x = k then [x] else [])"
  by (simp add: with_key_def)

lemma with_key_empty_iff: "with_key v k xs = [] \<longleftrightarrow> k \<notin> itemKey v ` set xs"
  by (auto simp: with_key_def filter_empty_conv)

lemma bucket_of_key_snoc_other:
  "itemKey v x \<noteq> k \<Longrightarrow> bucket_of_key v (xs @ [x]) k = bucket_of_key v xs k"
  by (simp add: bucket_of_key_def with_key_snoc)

lemma bucket_of_key_snoc_same:
  "itemKey v x \<in> itemKey v ` set xs \<Longrightarrow>
   bucket_of_key v (xs @ [x]) (itemKey v x) =
   (bucket_of_key v xs (itemKey v x))\<lparr>items := items (bucket_of_key v xs (itemKey v x)) @ [x]\<rparr>"
  using with_key_empty_iff [of v "itemKey v x" xs]
  by (cases "with_key v (itemKey v x) xs") (simp_all add: bucket_of_key_def with_key_snoc)

lemma bucket_of_key_snoc_new:
  "itemKey v x \<notin> itemKey v ` set xs \<Longrightarrow>
   bucket_of_key v (xs @ [x]) (itemKey v x) =
   \<lparr>label = toLocaleDateString v (new_Date (dt x * 1000)), items = [x]\<rparr>"
  using with_key_empty_iff [of v "itemKey v x" xs]
  by (simp add: bucket_of_key_def with_key_snoc)

lemma group_item_step: "group_item v x (grouped_by_key v xs) = grouped_by_key v (xs @ [x])"
proof (cases "itemKey v x \<in> itemKey v ` set xs")
  case True
  let ?k = "itemKey v x"
  let ?ks = "first_seen (map (itemKey v) xs)"
  from True have mem: "?k \<in> set ?ks" by (simp add: set_first_seen)
  have look: "map_of (grouped_by_key v xs) ?k = Some (bucket_of_key v xs ?k)"
    unfolding grouped_by_key_def using mem by (simp add: map_of_keyed)
  have "group_item v x (grouped_by_key v xs) =
        AList.map_entry ?k (\<lambda>b. b\<lparr>items := items b @ [x]\<rparr>) (grouped_by_key v xs)"
    using look by (simp add: group_item_def Let_def itemKey_def)
  also have "\<dots> = map (\<lambda>k. (k,
        if k = ?k then (bucket_of_key v xs k)\<lparr>items := items (bucket_of_key v xs k) @ [x]\<rparr>
        else bucket_of_key v xs k)) ?ks"
    unfolding grouped_by_key_def
    by (rule map_entry_keyed [OF distinct_first_seen])
  also have "\<dots> = map (\<lambda>k. (k, bucket_of_key v (xs @ [x]) k)) ?ks"
    using True by (auto simp: bucket_of_key_snoc_same bucket_of_key_snoc_other)
  also have "\<dots> = grouped_by_key v (xs @ [x])"
    using True by (simp add: grouped_by_key_def first_seen_snoc)
  finally show ?thesis .
next
  case False
  let ?k = "itemKey v x"
  let ?ks = "first_seen (map (itemKey v) xs)"
  let ?b = "\<lparr>label = toLocaleDateString v (new_Date (dt x * 1000)), items = []\<rparr>"
  from False have nmem: "?k \<notin> set ?ks" by (simp add: set_first_seen)
  have look: "map_of (grouped_by_key v xs) ?k = None"
    unfolding grouped_by_key_def using nmem by (simp add: map_of_keyed)
  have fresh: "?k \<notin> fst ` set (grouped_by_key v xs)"
    using look by (simp add: map_of_eq_None_iff)
  have "group_item v x (grouped_by_key v xs) =
        AList.map_entry ?k (\<lambda>b. b\<lparr>items := items b @ [x]\<rparr>)
          (AList.update ?k ?b (grouped_by_key v xs))"
    using look by (simp add: group_item_def Let_def itemKey_def)
  also have "\<dots> = grouped_by_key v xs @ [(?k, ?b\<lparr>items := items ?b @ [x]\<rparr>)]"
    by (simp only: update_fresh [OF fresh] map_entry_last [OF fresh])
  also have "\<dots> = map (\<lambda>k. (k, bucket_of_key v (xs @ [x]) k)) (?ks @ [?k])"
  proof -
    have "bucket_of_key v (xs @ [x]) k = bucket_of_key v xs k" if "k \<in> set ?ks" for k
      using that nmem by (intro bucket_of_key_snoc_other) auto
    then show ?thesis
      using False by (simp add: grouped_by_key_def bucket_of_key_snoc_new)
  qed
  also have "\<dots> = grouped_by_key v (xs @ [x])"
    using False by (simp add: grouped_by_key_def first_seen_snoc)
  finally show ?thesis .
qed

lemma fold_group_item: "fold (group_item v) xs [] = grouped_by_key v xs"
proof (induction xs rule: rev_induct)
  case Nil
  show ?case by (simp add: grouped_by_key_def)
next
  case (snoc x xs)
  then show ?case by (simp add: group_item_step)
qed

lemma buildGroupedForecast_keys:
  "buildGroupedForecast v (Some xs) =
   map (bucket_of_key v xs) (take 5 (first_seen (map (itemKey v) xs)))"
  by (simp add: buildGroupedForecast_def fold_group_item grouped_by_key_def take_map comp_def)


subsection \<open>Keys and local days\<close>

text \<open>The key is an injective function of the local day.\<close>

lemma digit_in: "d < 10 \<Longrightarrow> ''0123456789'' ! d \<in> set ''0123456789''"
  by (rule nth_mem) simp

lemma digit_inj:
  assumes "a < 10" "b < 10" "''0123456789'' ! a = ''0123456789'' ! b"
  shows "a = b"
proof -
  have "distinct ''0123456789''" by simp
  moreover have "a < length ''0123456789''" "b < length ''0123456789''" using assms by simp_all
  ultimately show ?thesis using assms(3) by (simp only: nth_eq_iff_index_eq)
qed

lemma nat_digits_set: "set (nat_digits n) \<subseteq> set ''0123456789''"
proof (induction n rule: nat_digits.induct)
  case (1 n)
  show ?case
  proof (cases "n < 10")
    case True
    then show ?thesis using digit_in [of n] by (subst nat_digits.simps) simp
  next
    case False
    have "n mod 10 < 10" by simp
    from digit_in [OF this] 1 [OF False] False show ?thesis
      by (subst nat_digits.simps) simp
  qed
qed

lemma nat_digits_nonempty: "nat_digits n \<noteq> []"
  by (subst nat_digits.simps) simp

lemma nat_digits_inj: "nat_digits a = nat_digits b \<Longrightarrow> a = b"
proof (induction a arbitrary: b rule: nat_digits.induct)
  case (1 n)
  show ?case
  proof (cases "n < 10")
    case True
    note n = this
    show ?thesis
    proof (cases "b < 10")
      case True
      with n 1(2) show ?thesis
        by (simp add: nat_digits.simps [of n] nat_digits.simps [of b] digit_inj)
    next
      case False
      with n 1(2) nat_digits_nonempty [of "b div 10"] show ?thesis
        by (simp add: nat_digits.simps [of n] nat_digits.simps [of b])
    qed
  next
    case False
    note n = this
    show ?thesis
    proof (cases "b < 10")
      case True
      with n 1(2) nat_digits_nonempty [of "n div 10"] show ?thesis
        by (simp add: nat_digits.simps [of n] nat_digits.simps [of b])
    next
      case False
      with n 1(2) have eq: "nat_digits (n div 10) = nat_digits (b div 10)"
        and dg: "''0123456789'' ! (n mod 10) = ''0123456789'' ! (b mod 10)"
        by (simp_all add: nat_digits.simps [of n] nat_digits.simps [of b])
      from 1(1) [OF n eq] have "n div 10 = b div 10" .
      moreover from dg have "n mod 10 = b mod 10" by (intro digit_inj) simp_all
      ultimately show ?thesis by (metis div_mult_mod_eq)
    qed
  qed
qed

lemma minus_notin_nat_digits: "CHR ''-'' \<notin> set (nat_digits n)"
  using nat_digits_set [of n] by auto

lemma split_at_last_minus:
  assumes "a @ CHR ''-'' # b = a' @ CHR ''-'' # b'"
    and "CHR ''-'' \<notin> set b" and "CHR ''-'' \<notin> set b'"
  shows "a = a' \<and> b = b'"
  using assms
proof (induction a arbitrary: a')
  case Nil
  then show ?case by (cases a') auto
next
  case (Cons x a)
  then show ?case by (cases a') auto
qed

lemma hd_nat_digits: "hd (nat_digits n) \<noteq> CHR ''-''"
  using minus_notin_nat_digits [of n] nat_digits_nonempty [of n]
  by (cases "nat_digits n") auto

lemma int_digits_inj: "int_digits a = int_digits b \<Longrightarrow> a = b"
proof -
  assume eq: "int_digits a = int_digits b"
  consider "a < 0" "b < 0" | "a < 0" "\<not> b < 0" | "\<not> a < 0" "b < 0" | "\<not> a < 0" "\<not> b < 0"
    by blast
  then show ?thesis
  proof cases
    case 1
    with eq have "nat (- a) = nat (- b)" by (simp add: int_digits_def nat_digits_inj)
    with 1 show ?thesis by simp
  next
    case 2
    with eq hd_nat_digits [of "nat b"] show ?thesis
      by (cases "nat_digits (nat b)") (auto simp: int_digits_def)
  next
    case 3
    with eq hd_nat_digits [of "nat a"] show ?thesis
      by (cases "nat_digits (nat a)") (auto simp: int_digits_def)
  next
    case 4
    with eq have "nat a = nat b" by (simp add: int_digits_def nat_digits_inj)
    with 4 show ?thesis by simp
  qed
qed

lemma hd_int_digits: "hd (int_digits i) \<noteq> CHR ''N''"
proof (cases "i < 0")
  case True
  then show ?thesis by (simp add: int_digits_def)
next
  case False
  from nat_digits_set [of "nat i"] nat_digits_nonempty [of "nat i"]
  have "hd (nat_digits (nat i)) \<in> set ''0123456789''"
    by (cases "nat_digits (nat i)") auto
  with False show ?thesis by (auto simp: int_digits_def)
qed

lemma int_digits_nonempty: "int_digits i \<noteq> []"
  by (simp add: int_digits_def nat_digits_nonempty)

lemma key_of_day_Some_inj:
  assumes "key_of_day (Some (y, m, d)) = key_of_day (Some (y', m', d'))"
  shows "y = y' \<and> m = m' \<and> d = d'"
proof -
  from assms have
    "(int_digits y @ CHR ''-'' # nat_digits m) @ CHR ''-'' # nat_digits d =
     (int_digits y' @ CHR ''-'' # nat_digits m') @ CHR ''-'' # nat_digits d'"
    by simp
  from split_at_last_minus [OF this minus_notin_nat_digits minus_notin_nat_digits]
  have 1: "int_digits y @ CHR ''-'' # nat_digits m = int_digits y' @ CHR ''-'' # nat_digits m'"
    and 2: "nat_digits d = nat_digits d'" by simp_all
  from split_at_last_minus [OF 1 minus_notin_nat_digits minus_notin_nat_digits]
  have "int_digits y = int_digits y'" "nat_digits m = nat_digits m'" by simp_all
  with 2 show ?thesis by (simp add: int_digits_inj nat_digits_inj)
qed

lemma key_of_day_Some_neq_None: "key_of_day (Some p) \<noteq> key_of_day None"
proof -
  obtain y m d where p: "p = (y, m, d)" by (cases p)
  have "hd (key_of_day (Some p)) = hd (int_digits y)"
    using int_digits_nonempty [of y] by (simp add: p)
  then show ?thesis using hd_int_digits [of y] by auto
qed

lemma key_of_day_inj: "inj key_of_day"
proof (rule injI)
  fix a b :: "(int \<times> nat \<times> nat) option"
  assume eq: "key_of_day a = key_of_day b"
  show "a = b"
  proof (cases a)
    case None
    with eq key_of_day_Some_neq_None show ?thesis by (cases b) auto
  next
    case (Some p)
    note a = this
    show ?thesis
    proof (cases b)
      case None
      with eq a key_of_day_Some_neq_None show ?thesis by auto
    next
      case (Some q)
      obtain y m d where p: "p = (y, m, d)" by (cases p)
      obtain y' m' d' where q: "q = (y', m', d')" by (cases q)
      from eq a Some p q key_of_day_Some_inj [of y m d y' m' d'] show ?thesis by simp
    qed
  qed
qed


lemma itemKey_localDay: "itemKey v x = key_of_day (localDay v x)"
  by (cases "new_Date (dt x * 1000)")
     (simp_all add: itemKey_def dayKey_def localDay_def int_digits_def nat_add_distrib)

lemma itemKey_eq_iff: "itemKey v x = itemKey v y \<longleftrightarrow> localDay v x = localDay v y"
  using key_of_day_inj by (auto simp: itemKey_localDay inj_eq)

lemma first_seen_map_inj:
  "inj h \<Longrightarrow> first_seen (map h ks) = map h (first_seen ks)"
  by (induction ks rule: rev_induct) (auto simp: first_seen_snoc inj_image_mem_iff)

lemma first_seen_keys:
  "first_seen (map (itemKey v) xs) = map key_of_day (first_seen (map (localDay v) xs))"
proof -
  have "map (itemKey v) xs = map key_of_day (map (localDay v) xs)"
    by (simp add: itemKey_localDay)
  then show ?thesis by (simp only: first_seen_map_inj [OF key_of_day_inj])
qed

lemma with_key_on_day: "with_key v (key_of_day d) xs = on_day v d xs"
  using key_of_day_inj by (simp add: with_key_def on_day_def itemKey_localDay inj_eq)

lemma items_buildGroupedForecast:
  "map items (buildGroupedForecast v (Some xs)) =
   map (\<lambda>d. on_day v d xs) (take 5 (first_seen (map (localDay v) xs)))"
  by (simp add: buildGroupedForecast_keys first_seen_keys take_map comp_def
      bucket_of_key_def with_key_on_day)

lemma list_ex_on_day:
  "list_ex (\<lambda>x. localDay v x = d) (on_day v d' xs) \<longleftrightarrow> d = d' \<and> d \<in> localDay v ` set xs"
  by (auto simp: list_ex_iff on_day_def)

lemma filter_index: "filter (\<lambda>j. j = i) [0..<n] = (if i < n then [i] else [])"
  by (induction n) auto

lemma holders_buildGroupedForecast:
  fixes v xs
  defines "days \<equiv> take 5 (first_seen (map (localDay v) xs))"
  shows "holders v (buildGroupedForecast v (Some xs)) d =
         filter (\<lambda>j. days ! j = d) [0..<length days]"
proof -
  let ?out = "buildGroupedForecast v (Some xs)"
  have len: "length ?out = length days"
    using arg_cong [OF items_buildGroupedForecast [of v xs], of length] by (simp add: days_def)
  have it: "items (?out ! j) = on_day v (days ! j) xs" if "j < length days" for j
  proof -
    from that len have "items (?out ! j) = map items ?out ! j" by simp
    also have "\<dots> = on_day v (days ! j) xs"
      using that by (simp add: items_buildGroupedForecast days_def)
    finally show ?thesis .
  qed
  have mem: "days ! j \<in> localDay v ` set xs" if "j < length days" for j
  proof -
    from that have "days ! j \<in> set days" by simp
    then have "days ! j \<in> set (first_seen (map (localDay v) xs))"
      unfolding days_def by (rule in_set_takeD)
    then show ?thesis by (simp add: set_first_seen)
  qed
  have "holders v ?out d =
        filter (\<lambda>j. list_ex (\<lambda>x. localDay v x = d) (items (?out ! j))) [0..<length days]"
    by (simp add: holders_def len)
  also have "\<dots> = filter (\<lambda>j. days ! j = d) [0..<length days]"
    by (rule filter_cong) (auto simp: it list_ex_on_day mem)
  finally show ?thesis .
qed

lemma holders_nth:
  assumes "distinct ds" and "i < length ds"
  shows "filter (\<lambda>j. ds ! j = ds ! i) [0..<length ds] = [i]"
proof -
  have "filter (\<lambda>j. ds ! j = ds ! i) [0..<length ds] = filter (\<lambda>j. j = i) [0..<length ds]"
    using assms by (intro filter_cong) (auto simp: nth_eq_iff_index_eq)
  with assms(2) show ?thesis by (simp add: filter_index)
qed

lemma holders_absent:
  assumes "d \<notin> set ds"
  shows "filter (\<lambda>j. ds ! j = d) [0..<length ds] = []"
  using assms by (auto simp: filter_empty_conv)


subsection \<open>The model at a concrete forecast\<close>

lemma nat_digits_lt10: "n < 10 \<Longrightarrow> nat_digits n = [''0123456789'' ! n]"
  by (subst nat_digits.simps) simp

lemma nat_digits_ge10:
  "10 \<le> n \<Longrightarrow> nat_digits n = nat_digits (n div 10) @ [''0123456789'' ! (n mod 10)]"
  by (subst nat_digits.simps) simp

lemma utc_fields:
  "year_of utc_en_US t = fst (civil_from_days (t div 86400000))"
  "month_of utc_en_US t = fst (snd (civil_from_days (t div 86400000))) - 1"
  "date_of utc_en_US t = snd (snd (civil_from_days (t div 86400000)))"
  "hours_of utc_en_US t = nat ((t mod 86400000) div 3600000)"
  "short_date_of utc_en_US t =
     weekday_names ! nat ((t div 86400000) mod 7) @ '', '' @
     month_names ! (fst (snd (civil_from_days (t div 86400000))) - 1) @ '' '' @
     nat_digits (snd (snd (civil_from_days (t div 86400000))))"
  by (simp_all add: utc_en_US_def)

lemma civil_1970:
  "civil_from_days 0 = (1970, 1, 1)"
  "civil_from_days 1 = (1970, 1, 2)"
  "civil_from_days 2 = (1970, 1, 3)"
  "civil_from_days 3 = (1970, 1, 4)"
  "civil_from_days 4 = (1970, 1, 5)"
  "civil_from_days 5 = (1970, 1, 6)"
  by code_simp+

lemma six_days_localDay:
  "map (localDay utc_en_US) six_days =
     [Some (1970, 1, 1), Some (1970, 1, 2), Some (1970, 1, 3), Some (1970, 1, 4),
      Some (1970, 1, 1), Some (1970, 1, 5), Some (1970, 1, 6)]"
  by (simp add: six_days_def localDay_def new_Date_def utc_fields civil_1970)

lemma six_days_keys:
  "map (itemKey utc_en_US) six_days =
     [''1970-1-1'', ''1970-1-2'', ''1970-1-3'', ''1970-1-4'', ''1970-1-1'', ''1970-1-5'', ''1970-1-6'']"
  by (simp add: itemKey_def dayKey_def six_days_def new_Date_def utc_fields civil_1970 int_digits_def
      nat_digits_lt10 nat_digits_ge10)

lemma six_days_labels:
  "map (\<lambda>x. toLocaleDateString utc_en_US (new_Date (dt x * 1000))) six_days =
     [''Thu, Jan 1'', ''Fri, Jan 2'', ''Sat, Jan 3'', ''Sun, Jan 4'', ''Thu, Jan 1'', ''Mon, Jan 5'', ''Tue, Jan 6'']"
  by (simp add: six_days_def new_Date_def utc_fields civil_1970 weekday_names_def month_names_def
      nat_digits_lt10)


lemma six_days_grouped:
  "buildGroupedForecast utc_en_US (Some six_days) =
    [\<lparr>label = ''Thu, Jan 1'', items = [\<lparr>dt = 0\<rparr>, \<lparr>dt = 10800\<rparr>]\<rparr>,
     \<lparr>label = ''Fri, Jan 2'', items = [\<lparr>dt = 86400\<rparr>]\<rparr>,
     \<lparr>label = ''Sat, Jan 3'', items = [\<lparr>dt = 172800\<rparr>]\<rparr>,
     \<lparr>label = ''Sun, Jan 4'', items = [\<lparr>dt = 259200\<rparr>]\<rparr>,
     \<lparr>label = ''Mon, Jan 5'', items = [\<lparr>dt = 345600\<rparr>]\<rparr>]"
  using six_days_keys six_days_labels
  by (simp add: buildGroupedForecast_def six_days_def group_item_def Let_def itemKey_def)

lemma six_days_first_seen:
  "first_seen (map (localDay utc_en_US) six_days) =
     [Some (1970, 1, 1), Some (1970, 1, 2), Some (1970, 1, 3), Some (1970, 1, 4),
      Some (1970, 1, 5), Some (1970, 1, 6)]"
  by (simp add: six_days_localDay)

lemma localDay_1970:
  "localDay utc_en_US \<lparr>dt = 0\<rparr> = Some (1970, 1, 1)"
  "localDay utc_en_US \<lparr>dt = 10800\<rparr> = Some (1970, 1, 1)"
  "localDay utc_en_US \<lparr>dt = 86400\<rparr> = Some (1970, 1, 2)"
  "localDay utc_en_US \<lparr>dt = 172800\<rparr> = Some (1970, 1, 3)"
  "localDay utc_en_US \<lparr>dt = 259200\<rparr> = Some (1970, 1, 4)"
  "localDay utc_en_US \<lparr>dt = 345600\<rparr> = Some (1970, 1, 5)"
  "localDay utc_en_US \<lparr>dt = 432000\<rparr> = Some (1970, 1, 6)"
  by (simp_all add: localDay_def new_Date_def utc_fields civil_1970)

section \<open>The day cap\<close>

text \<open>
  Claim C3. When the items of the input have more than five distinct day keys, the
  result of \<^verbatim>\<open>buildGroupedForecast\<close> has exactly five buckets, and they are the
  buckets of the first five keys in the order of their first occurrence: each holds
  the items of its key in input order, under the label of the first of them. The
  remaining buckets are dropped without an error: the result is a plain list, and a
  search that receives such a forecast leaves \<^verbatim>\<open>vm.error\<close> unset and shows the five
  buckets.
\<close>

theorem day_cap:
  assumes "5 < card (itemKey v ` set xs)"
  shows "length (buildGroupedForecast v (Some xs)) = 5 \<and>
         buildGroupedForecast v (Some xs) =
           map (bucket_of_key v xs) (take 5 (first_seen (map (itemKey v) xs))) \<and>
         error (search v (Resolved (Some \<lparr>forecast = Some \<lparr>list_of = Some xs\<rparr>,
                  current = Some c, place = pl\<rparr>)) m) = None \<and>
         groupedForecast (search v (Resolved (Some \<lparr>forecast = Some \<lparr>list_of = Some xs\<rparr>,
                  current = Some c, place = pl\<rparr>)) m) = buildGroupedForecast v (Some xs)"
proof -
  from assms have "5 < length (first_seen (map (itemKey v) xs))"
    by (simp add: length_first_seen)
  then have "length (buildGroupedForecast v (Some xs)) = 5"
    by (simp add: buildGroupedForecast_keys)
  moreover have "error (search v (Resolved (Some \<lparr>forecast = Some \<lparr>list_of = Some xs\<rparr>,
                  current = Some c, place = pl\<rparr>)) m) = None"
    and "groupedForecast (search v (Resolved (Some \<lparr>forecast = Some \<lparr>list_of = Some xs\<rparr>,
                  current = Some c, place = pl\<rparr>)) m) = buildGroupedForecast v (Some xs)"
    by (simp_all add: search_def search_settle_def search_begin_def on_fulfilled_def
        on_finally_def)
  ultimately show ?thesis
    using buildGroupedForecast_keys [of v xs] by blast
qed

theorem day_cap_witness:
  "5 < card (itemKey utc_en_US ` set six_days) \<and>
   length (buildGroupedForecast utc_en_US (Some six_days)) = 5 \<and>
   buildGroupedForecast utc_en_US (Some six_days) =
     map (bucket_of_key utc_en_US six_days)
       [''1970-1-1'', ''1970-1-2'', ''1970-1-3'', ''1970-1-4'', ''1970-1-5''] \<and>
   error (search utc_en_US (Resolved (Some \<lparr>forecast = Some \<lparr>list_of = Some six_days\<rparr>,
            current = Some (), place = None\<rparr>)) initial_vm) = None"
proof -
  have keys: "itemKey utc_en_US ` set six_days =
      {''1970-1-1'', ''1970-1-2'', ''1970-1-3'', ''1970-1-4'', ''1970-1-5'', ''1970-1-6''}"
    using arg_cong [OF six_days_keys, of set] by (simp add: insert_commute)
  have h: "5 < card (itemKey utc_en_US ` set six_days)"
    by (simp add: keys)
  have ks: "take 5 (first_seen (map (itemKey utc_en_US) six_days)) =
      [''1970-1-1'', ''1970-1-2'', ''1970-1-3'', ''1970-1-4'', ''1970-1-5'']"
    by (simp add: six_days_keys)
  from day_cap [OF h, of "()" None initial_vm] h show ?thesis
    by (simp only: ks) simp
qed

section \<open>One bucket per local day\<close>

lemma day_kept:
  fixes v :: viewer and xs :: "'a sample_scheme list"
  assumes "d \<in> set (take 5 (first_seen (map (localDay v) xs)))"
  shows "in_one_bucket v xs (buildGroupedForecast v (Some xs)) d \<and>
         (\<exists>j < length (buildGroupedForecast v (Some xs)).
             holders v (buildGroupedForecast v (Some xs)) d = [j] \<and>
             items (buildGroupedForecast v (Some xs) ! j) = on_day v d xs)"
proof -
  let ?out = "buildGroupedForecast v (Some xs)"
  let ?days = "take 5 (first_seen (map (localDay v) xs))"
  have dist: "distinct ?days" by (simp add: distinct_first_seen)
  have len: "length ?out = length ?days"
    using arg_cong [OF items_buildGroupedForecast [of v xs], of length] by simp
  from assms obtain i where i: "i < length ?days" "?days ! i = d"
    by (auto simp: in_set_conv_nth)
  have h: "holders v ?out d = [i]"
    using holders_nth [OF dist i(1)] i(2) by (simp add: holders_buildGroupedForecast)
  have "items (?out ! i) = map items ?out ! i" using i(1) len by simp
  also have "\<dots> = on_day v d xs"
    using i by (simp add: items_buildGroupedForecast)
  finally have it: "items (?out ! i) = on_day v d xs" .
  have "in_one_bucket v xs ?out d"
    by (simp add: in_one_bucket_def h it on_day_def)
  moreover have "\<exists>j < length ?out. holders v ?out d = [j] \<and> items (?out ! j) = on_day v d xs"
    using h it i(1) len by auto
  ultimately show ?thesis by blast
qed

lemma day_dropped:
  assumes "d \<notin> set (take 5 (first_seen (map (localDay v) xs)))"
  shows "holders v (buildGroupedForecast v (Some xs)) d = []"
  using assms holders_absent [of d "take 5 (first_seen (map (localDay v) xs))"]
  by (simp add: holders_buildGroupedForecast)

lemma at_most_five_days:
  assumes "card (localDay v ` set xs) \<le> 5"
  shows "every_day_in_one_bucket v xs"
proof -
  from assms have "length (first_seen (map (localDay v) xs)) \<le> 5"
    by (simp add: length_first_seen)
  then have "set (take 5 (first_seen (map (localDay v) xs))) = localDay v ` set xs"
    by (simp add: set_first_seen)
  then show ?thesis
    using day_kept [of _ v xs] by (auto simp: every_day_in_one_bucket_def list_all_iff)
qed

lemma two_days_localDay:
  "localDay utc_en_US ` set two_days = {Some (1970, 1, 1), Some (1970, 1, 2)}"
  by (auto simp: two_days_def localDay_1970)

text \<open>
  As stated, claim C2 asks that for every input and every local day of the input, the
  items of that day are in exactly one bucket of the result, in input order:
  \<open>every_day_in_one_bucket v xs\<close> for every \<open>xs\<close>. The cap at five buckets refutes
  it: in \<open>six_days\<close> the item with timestamp 432000 falls on the sixth day, and no
  bucket of the result holds it.
\<close>

theorem grouping_counterexample:
  "\<not> every_day_in_one_bucket utc_en_US six_days \<and>
   \<lparr>dt = 432000\<rparr> \<in> set six_days \<and>
   holders utc_en_US (buildGroupedForecast utc_en_US (Some six_days))
     (localDay utc_en_US \<lparr>dt = 432000\<rparr>) = []"
proof -
  have h: "holders utc_en_US (buildGroupedForecast utc_en_US (Some six_days))
          (Some (1970, 1, 6)) = []"
    by (simp add: holders_def six_days_grouped localDay_1970 upt_conv_Cons)
  then have "\<not> in_one_bucket utc_en_US six_days
      (buildGroupedForecast utc_en_US (Some six_days)) (Some (1970, 1, 6))"
    by (simp add: in_one_bucket_def)
  then have "\<not> every_day_in_one_bucket utc_en_US six_days"
    by (simp add: every_day_in_one_bucket_def six_days_localDay)
  with h show ?thesis
    by (simp add: localDay_1970 six_days_def)
qed

text \<open>
  Claim C2, amended. For every input whose items fall on at most five distinct local
  days, the items of each local day are in exactly one bucket of the result, in their
  input order. For every input and every local day \<open>d\<close> of the input: when \<open>d\<close> is
  among the first five distinct days in the order of their first occurrence, the
  items of day \<open>d\<close> are in exactly one bucket of the result, which holds exactly these
  items in their input order; when it is not, no bucket holds an item of day \<open>d\<close>.
\<close>

theorem grouping_first_five_days:
  fixes v :: viewer and xs :: "'a sample_scheme list"
  assumes "d \<in> localDay v ` set xs"
  shows "(card (localDay v ` set xs) \<le> 5 \<longrightarrow> every_day_in_one_bucket v xs) \<and>
         (d \<in> set (take 5 (first_seen (map (localDay v) xs))) \<longrightarrow>
            in_one_bucket v xs (buildGroupedForecast v (Some xs)) d \<and>
            (\<exists>j < length (buildGroupedForecast v (Some xs)).
                holders v (buildGroupedForecast v (Some xs)) d = [j] \<and>
                items (buildGroupedForecast v (Some xs) ! j) = on_day v d xs)) \<and>
         (d \<notin> set (take 5 (first_seen (map (localDay v) xs))) \<longrightarrow>
            holders v (buildGroupedForecast v (Some xs)) d = [])"
  using at_most_five_days [of v xs] day_kept [of d v xs] day_dropped [of d v xs]
  by blast

theorem grouping_first_five_days_witness:
  "Some (1970, 1, 1) \<in> localDay utc_en_US ` set two_days \<and>
   card (localDay utc_en_US ` set two_days) \<le> 5 \<and>
   every_day_in_one_bucket utc_en_US two_days \<and>
   Some (1970, 1, 1) \<in> localDay utc_en_US ` set six_days \<and>
   Some (1970, 1, 1) \<in> set (take 5 (first_seen (map (localDay utc_en_US) six_days))) \<and>
   in_one_bucket utc_en_US six_days (buildGroupedForecast utc_en_US (Some six_days))
     (Some (1970, 1, 1)) \<and>
   holders utc_en_US (buildGroupedForecast utc_en_US (Some six_days)) (Some (1970, 1, 1)) = [0] \<and>
   items (buildGroupedForecast utc_en_US (Some six_days) ! 0) = [\<lparr>dt = 0\<rparr>, \<lparr>dt = 10800\<rparr>] \<and>
   Some (1970, 1, 6) \<in> localDay utc_en_US ` set six_days \<and>
   Some (1970, 1, 6) \<notin> set (take 5 (first_seen (map (localDay utc_en_US) six_days))) \<and>
   holders utc_en_US (buildGroupedForecast utc_en_US (Some six_days)) (Some (1970, 1, 6)) = []"
proof -
  have days: "localDay utc_en_US ` set six_days = set (map (localDay utc_en_US) six_days)"
    by simp
  have in1: "Some (1970, 1, 1) \<in> localDay utc_en_US ` set six_days"
    and in6: "Some (1970, 1, 6) \<in> localDay utc_en_US ` set six_days"
    unfolding days six_days_localDay by simp_all
  have first: "Some (1970, 1, 1) \<in> set (take 5 (first_seen (map (localDay utc_en_US) six_days)))"
    and late: "Some (1970, 1, 6) \<notin> set (take 5 (first_seen (map (localDay utc_en_US) six_days)))"
    by (simp_all add: six_days_first_seen)
  have in2: "Some (1970, 1, 1) \<in> localDay utc_en_US ` set two_days"
    and few: "card (localDay utc_en_US ` set two_days) \<le> 5"
    by (simp_all add: two_days_localDay)
  from grouping_first_five_days [OF in2] few
  have all2: "every_day_in_one_bucket utc_en_US two_days"
    by blast
  from grouping_first_five_days [OF in1] first
  have one: "in_one_bucket utc_en_US six_days (buildGroupedForecast utc_en_US (Some six_days))
      (Some (1970, 1, 1))"
    by blast
  have h1: "holders utc_en_US (buildGroupedForecast utc_en_US (Some six_days))
      (Some (1970, 1, 1)) = [0]"
    by (simp add: holders_def six_days_grouped localDay_1970 upt_conv_Cons)
  from grouping_first_five_days [OF in6] late
  have none: "holders utc_en_US (buildGroupedForecast utc_en_US (Some six_days))
      (Some (1970, 1, 6)) = []"
    by blast
  show ?thesis
    using in2 few all2 in1 in6 first late one h1 none by (simp add: six_days_grouped)
qed

section \<open>The slot matcher returns the first closest item with a local hour\<close>

lemma fold_consider_item:
  "fold (consider_item v hs) xs st = fold (consider_pair v) (List.product xs hs) st"
proof (induction xs arbitrary: st)
  case Nil
  show ?case by simp
next
  case (Cons x xs)
  have "consider_pair v (x, sh) = consider_hour x (localHour v x) sh" for sh
    by (rule ext) (simp add: consider_pair_def)
  then have "fold (consider_pair v) (map (Pair x) hs) st = consider_item v hs x st"
    by (simp add: fold_map comp_def consider_item_def localHour_def)
  with Cons show ?case by simp
qed

lemma localHour_Num:
  "localHour v x \<noteq> NaN \<Longrightarrow> localHour v x = Num (int (hours_of v (dt x * 1000)))"
  by (cases "new_Date (dt x * 1000)") (simp_all add: localHour_def new_Date_def split: if_splits)

lemma consider_pair_Num:
  "localHour v (fst p) \<noteq> NaN \<Longrightarrow>
   consider_pair v p st =
     (if num_less (Num (hour_gap v p)) (snd st) then (Some (fst p), Num (hour_gap v p)) else st)"
  by (simp add: consider_pair_def consider_hour_def localHour_Num hour_gap_def)

lemma scan_first_minimum:
  assumes "ps \<noteq> []" and "\<forall>p \<in> set ps. localHour v (fst p) \<noteq> NaN"
  shows "\<exists>i < length ps.
           fold (consider_pair v) ps (None, Infinity) = (Some (fst (ps ! i)), Num (hour_gap v (ps ! i))) \<and>
           (\<forall>j < length ps. hour_gap v (ps ! i) \<le> hour_gap v (ps ! j)) \<and>
           (\<forall>j < i. hour_gap v (ps ! i) < hour_gap v (ps ! j))"
  using assms
proof (induction ps rule: rev_induct)
  case Nil
  then show ?case by simp
next
  case (snoc p ps)
  from snoc.prems have hp: "localHour v (fst p) \<noteq> NaN" by simp
  show ?case
  proof (cases "ps = []")
    case True
    with hp show ?thesis by (simp add: consider_pair_Num)
  next
    case False
    with snoc obtain i where i: "i < length ps"
      and st: "fold (consider_pair v) ps (None, Infinity) =
                 (Some (fst (ps ! i)), Num (hour_gap v (ps ! i)))"
      and le: "\<forall>j < length ps. hour_gap v (ps ! i) \<le> hour_gap v (ps ! j)"
      and lt: "\<forall>j < i. hour_gap v (ps ! i) < hour_gap v (ps ! j)"
      by auto
    show ?thesis
    proof (cases "hour_gap v p < hour_gap v (ps ! i)")
      case True
      have "fold (consider_pair v) (ps @ [p]) (None, Infinity) = (Some (fst p), Num (hour_gap v p))"
        using True by (simp add: st consider_pair_Num [OF hp])
      moreover have below: "hour_gap v p < hour_gap v (ps ! j)" if "j < length ps" for j
      proof -
        from le that have "hour_gap v (ps ! i) \<le> hour_gap v (ps ! j)" by simp
        with True show ?thesis by simp
      qed
      then have "\<forall>j < length (ps @ [p]). hour_gap v p \<le> hour_gap v ((ps @ [p]) ! j)"
        by (auto simp: nth_append less_Suc_eq intro: less_imp_le)
      moreover from below have "\<forall>j < length ps. hour_gap v p < hour_gap v ((ps @ [p]) ! j)"
        by (simp add: nth_append)
      ultimately show ?thesis
        by (intro exI [of _ "length ps"]) simp
    next
      case False
      have "fold (consider_pair v) (ps @ [p]) (None, Infinity) =
              (Some (fst (ps ! i)), Num (hour_gap v (ps ! i)))"
        using False by (simp add: st consider_pair_Num [OF hp])
      moreover have "\<forall>j < length (ps @ [p]). hour_gap v (ps ! i) \<le> hour_gap v ((ps @ [p]) ! j)"
        using False le by (auto simp: nth_append less_Suc_eq)
      moreover have "\<forall>j < i. hour_gap v (ps ! i) < hour_gap v ((ps @ [p]) ! j)"
        using lt i by (auto simp: nth_append)
      ultimately show ?thesis
        using i by (intro exI [of _ i]) (simp add: nth_append)
    qed
  qed
qed


lemma consider_item_undated:
  "localHour v x = NaN \<Longrightarrow> consider_item v hs x st = st"
proof -
  assume h: "localHour v x = NaN"
  have "fold (consider_hour x NaN) hs st = st"
    by (induction hs) (simp_all add: consider_hour_def)
  with h show ?thesis by (simp add: consider_item_def localHour_def)
qed

lemma findForecastForSlot_skips_undated:
  "findForecastForSlot v (Some xs) sl =
   findForecastForSlot v (Some (filter (\<lambda>x. localHour v x \<noteq> NaN) xs)) sl"
proof -
  have "fold (consider_item v hs) xs st =
        fold (consider_item v hs) (filter (\<lambda>x. localHour v x \<noteq> NaN) xs) st" for hs st
    by (induction xs arbitrary: st) (simp_all add: consider_item_undated)
  then show ?thesis by (simp add: findForecastForSlot_def split: option.splits)
qed

lemma fold_no_hours: "fold (consider_item v []) xs st = st"
  by (induction xs) (simp_all add: consider_item_def)

lemma first_closest_dated:
  assumes "xs \<noteq> []" and "hs \<noteq> []" and "hours sl = Some hs"
    and "\<forall>x \<in> set xs. localHour v x \<noteq> NaN"
  shows "first_closest v xs hs (findForecastForSlot v (Some xs) sl)"
proof -
  let ?ps = "List.product xs hs"
  from assms have ne: "?ps \<noteq> []" by (cases xs; cases hs) simp_all
  from assms have d: "\<forall>p \<in> set ?ps. localHour v (fst p) \<noteq> NaN" by auto
  from assms have "findForecastForSlot v (Some xs) sl = fst (fold (consider_pair v) ?ps (None, Infinity))"
    by (simp add: findForecastForSlot_def fold_consider_item)
  with scan_first_minimum [OF ne d] show ?thesis
    unfolding first_closest_def by auto
qed

lemma findForecastForSlot_dated:
  "findForecastForSlot v (Some xs) sl = findForecastForSlot v (Some (dated v xs)) sl"
  unfolding dated_def by (rule findForecastForSlot_skips_undated)

lemma first_closest_Some: "first_closest v xs hs r \<Longrightarrow> r \<noteq> None"
  by (auto simp: first_closest_def)

lemma afternoon_hours: "hours (buildTimeSlots ! 1) = Some [12, 15, 18]"
  by (simp add: buildTimeSlots_def)

lemma localHour_examples:
  "localHour utc_en_US \<lparr>dt = 18000\<rparr> = Num 5"
  "localHour utc_en_US \<lparr>dt = 46800\<rparr> = Num 13"
  "localHour utc_en_US \<lparr>dt = 72000\<rparr> = Num 20"
  "localHour utc_en_US \<lparr>dt = 8640000000001\<rparr> = NaN"
  by (simp_all add: localHour_def new_Date_def utc_fields)

text \<open>
  As stated, claim C4 asks that for every non-empty list of items \<open>xs\<close> and every
  slot with a non-empty list of hours \<open>hs\<close> the result is the item of the first pair
  of minimal distance over all pairs of \<open>xs\<close> and \<open>hs\<close>:
  \<open>first_closest v xs hs (findForecastForSlot v (Some xs) sl)\<close>. An item whose
  timestamp is outside the range of \<^verbatim>\<open>Date\<close> refutes it: its local hour is \<open>NaN\<close>,
  no distance computed from it compares below \<^verbatim>\<open>bestDiff\<close>, and for the list of this
  one item and the Afternoon slot the result is \<^verbatim>\<open>null\<close>.
\<close>

theorem slot_match_counterexample:
  "[\<lparr>dt = 8640000000001\<rparr>] \<noteq> [] \<and> [12, 15, 18 :: int] \<noteq> [] \<and>
   hours (buildTimeSlots ! 1) = Some [12, 15, 18] \<and>
   findForecastForSlot utc_en_US (Some [\<lparr>dt = 8640000000001\<rparr>]) (buildTimeSlots ! 1) = None \<and>
   \<not> first_closest utc_en_US [\<lparr>dt = 8640000000001\<rparr>] [12, 15, 18]
        (findForecastForSlot utc_en_US (Some [\<lparr>dt = 8640000000001\<rparr>]) (buildTimeSlots ! 1))"
proof -
  have r: "findForecastForSlot utc_en_US (Some [\<lparr>dt = 8640000000001\<rparr>]) (buildTimeSlots ! 1) = None"
    using localHour_examples(4)
    by (simp add: findForecastForSlot_def buildTimeSlots_def consider_item_def consider_hour_def
        localHour_def)
  then have "\<not> first_closest utc_en_US [\<lparr>dt = 8640000000001\<rparr>] [12, 15, 18]
        (findForecastForSlot utc_en_US (Some [\<lparr>dt = 8640000000001\<rparr>]) (buildTimeSlots ! 1))"
    using first_closest_Some by force
  with r afternoon_hours show ?thesis by simp
qed

text \<open>
  Claim C4, amended. For every list of items and every slot with a list of hours,
  \<^verbatim>\<open>findForecastForSlot\<close> passes over the items that have no local hour. When an item
  with a local hour is left and the list of hours is not empty, the result is the item
  of a pair (item, slot hour) whose distance \<open>\<bar>sampleLocalHour - targetHour\<bar>\<close> is
  minimal over all pairs of the items with a local hour and the slot hours, and among
  the pairs of minimal distance it is the first in iteration order (items outside,
  hours inside). When no item has a local hour, or the list of hours is empty, the
  result is \<^verbatim>\<open>null\<close>. So for a non-empty list of items that all have a local hour
  and a non-empty list of hours the claim holds as it was stated; in particular, for
  three items with local hours 5, 13 and 20 and the Afternoon slot (hours 12, 15, 18)
  the result is the item of hour 13.
\<close>

theorem slot_match:
  "(hours sl = Some hs \<and> dated v xs \<noteq> [] \<and> hs \<noteq> [] \<longrightarrow>
      first_closest v (dated v xs) hs (findForecastForSlot v (Some xs) sl)) \<and>
   (hours sl = Some hs \<and> (dated v xs = [] \<or> hs = []) \<longrightarrow>
      findForecastForSlot v (Some xs) sl = None) \<and>
   (hours sl = Some hs \<and> xs \<noteq> [] \<and> hs \<noteq> [] \<and> (\<forall>x \<in> set xs. localHour v x \<noteq> NaN) \<longrightarrow>
      first_closest v xs hs (findForecastForSlot v (Some xs) sl)) \<and>
   (localHour v a = Num 5 \<and> localHour v b = Num 13 \<and> localHour v c = Num 20 \<longrightarrow>
      findForecastForSlot v (Some [a, b, c]) (buildTimeSlots ! 1) = Some b)"
proof (intro conjI impI)
  assume h: "hours sl = Some hs \<and> dated v xs \<noteq> [] \<and> hs \<noteq> []"
  have "\<forall>x \<in> set (dated v xs). localHour v x \<noteq> NaN" by (simp add: dated_def)
  with h have "first_closest v (dated v xs) hs (findForecastForSlot v (Some (dated v xs)) sl)"
    by (intro first_closest_dated) simp_all
  then show "first_closest v (dated v xs) hs (findForecastForSlot v (Some xs) sl)"
    by (simp add: findForecastForSlot_dated [of v xs sl])
next
  assume h: "hours sl = Some hs \<and> (dated v xs = [] \<or> hs = [])"
  then have "findForecastForSlot v (Some (dated v xs)) sl = None"
    by (auto simp: findForecastForSlot_def fold_no_hours)
  then show "findForecastForSlot v (Some xs) sl = None"
    by (simp add: findForecastForSlot_dated [of v xs sl])
next
  assume "hours sl = Some hs \<and> xs \<noteq> [] \<and> hs \<noteq> [] \<and> (\<forall>x \<in> set xs. localHour v x \<noteq> NaN)"
  then show "first_closest v xs hs (findForecastForSlot v (Some xs) sl)"
    by (intro first_closest_dated) simp_all
next
  assume "localHour v a = Num 5 \<and> localHour v b = Num 13 \<and> localHour v c = Num 20"
  then show "findForecastForSlot v (Some [a, b, c]) (buildTimeSlots ! 1) = Some b"
    by (simp add: findForecastForSlot_def buildTimeSlots_def consider_item_def consider_hour_def
        localHour_def)
qed

theorem slot_match_witness:
  "hours (buildTimeSlots ! 1) = Some [12, 15, 18] \<and> [12, 15, 18 :: int] \<noteq> [] \<and>
   dated utc_en_US [\<lparr>dt = 18000\<rparr>, \<lparr>dt = 8640000000001\<rparr>, \<lparr>dt = 46800\<rparr>, \<lparr>dt = 72000\<rparr>] =
     [\<lparr>dt = 18000\<rparr>, \<lparr>dt = 46800\<rparr>, \<lparr>dt = 72000\<rparr>] \<and>
   first_closest utc_en_US [\<lparr>dt = 18000\<rparr>, \<lparr>dt = 46800\<rparr>, \<lparr>dt = 72000\<rparr>] [12, 15, 18]
     (findForecastForSlot utc_en_US
        (Some [\<lparr>dt = 18000\<rparr>, \<lparr>dt = 8640000000001\<rparr>, \<lparr>dt = 46800\<rparr>, \<lparr>dt = 72000\<rparr>])
        (buildTimeSlots ! 1)) \<and>
   findForecastForSlot utc_en_US
     (Some [\<lparr>dt = 18000\<rparr>, \<lparr>dt = 8640000000001\<rparr>, \<lparr>dt = 46800\<rparr>, \<lparr>dt = 72000\<rparr>])
     (buildTimeSlots ! 1) = Some \<lparr>dt = 46800\<rparr> \<and>
   dated utc_en_US [\<lparr>dt = 8640000000001\<rparr>] = [] \<and>
   findForecastForSlot utc_en_US (Some [\<lparr>dt = 8640000000001\<rparr>]) (buildTimeSlots ! 1) = None \<and>
   localHour utc_en_US \<lparr>dt = 18000\<rparr> = Num 5 \<and>
   localHour utc_en_US \<lparr>dt = 46800\<rparr> = Num 13 \<and>
   localHour utc_en_US \<lparr>dt = 72000\<rparr> = Num 20 \<and>
   first_closest utc_en_US [\<lparr>dt = 18000\<rparr>, \<lparr>dt = 46800\<rparr>, \<lparr>dt = 72000\<rparr>] [12, 15, 18]
     (findForecastForSlot utc_en_US (Some [\<lparr>dt = 18000\<rparr>, \<lparr>dt = 46800\<rparr>, \<lparr>dt = 72000\<rparr>])
        (buildTimeSlots ! 1)) \<and>
   findForecastForSlot utc_en_US (Some [\<lparr>dt = 18000\<rparr>, \<lparr>dt = 46800\<rparr>, \<lparr>dt = 72000\<rparr>])
     (buildTimeSlots ! 1) = Some \<lparr>dt = 46800\<rparr>"
proof -
  let ?xs4 = "[\<lparr>dt = 18000\<rparr>, \<lparr>dt = 8640000000001\<rparr>, \<lparr>dt = 46800\<rparr>, \<lparr>dt = 72000\<rparr>]"
  let ?xs3 = "[\<lparr>dt = 18000\<rparr>, \<lparr>dt = 46800\<rparr>, \<lparr>dt = 72000\<rparr>]"
  let ?sl = "buildTimeSlots ! 1"
  note h = localHour_examples
  have d4: "dated utc_en_US ?xs4 = ?xs3" and d1: "dated utc_en_US [\<lparr>dt = 8640000000001\<rparr>] = []"
    by (simp_all add: dated_def h)
  have ne: "[12, 15, 18 :: int] \<noteq> []" by simp
  note i4 = slot_match [of ?sl "[12, 15, 18]" utc_en_US ?xs4
      "\<lparr>dt = 18000\<rparr>" "\<lparr>dt = 46800\<rparr>" "\<lparr>dt = 72000\<rparr>"]
  note i1 = slot_match [of ?sl "[12, 15, 18]" utc_en_US "[\<lparr>dt = 8640000000001\<rparr>]"
      "\<lparr>dt = 18000\<rparr>" "\<lparr>dt = 46800\<rparr>" "\<lparr>dt = 72000\<rparr>"]
  note i3 = slot_match [of ?sl "[12, 15, 18]" utc_en_US ?xs3
      "\<lparr>dt = 18000\<rparr>" "\<lparr>dt = 46800\<rparr>" "\<lparr>dt = 72000\<rparr>"]
  have c4: "first_closest utc_en_US ?xs3 [12, 15, 18] (findForecastForSlot utc_en_US (Some ?xs4) ?sl)"
    using i4 [THEN conjunct1] afternoon_hours d4 by simp
  have r1: "findForecastForSlot utc_en_US (Some [\<lparr>dt = 8640000000001\<rparr>]) ?sl = None"
    using i1 [THEN conjunct2, THEN conjunct1] afternoon_hours d1 by simp
  have c3: "first_closest utc_en_US ?xs3 [12, 15, 18] (findForecastForSlot utc_en_US (Some ?xs3) ?sl)"
    using i3 [THEN conjunct2, THEN conjunct2, THEN conjunct1] afternoon_hours h by simp
  have r3: "findForecastForSlot utc_en_US (Some ?xs3) ?sl = Some \<lparr>dt = 46800\<rparr>"
    using i3 [THEN conjunct2, THEN conjunct2, THEN conjunct2] h by simp
  have r4: "findForecastForSlot utc_en_US (Some ?xs4) ?sl = Some \<lparr>dt = 46800\<rparr>"
    using r3 findForecastForSlot_dated [of utc_en_US ?xs4 ?sl] by (simp only: d4)
  show ?thesis
    apply (intro conjI)
    apply (rule afternoon_hours)
    apply (rule ne)
    apply (rule d4)
    apply (rule c4)
    apply (rule r4)
    apply (rule d1)
    apply (rule r1)
    apply (rule h(1))
    apply (rule h(2))
    apply (rule h(3))
    apply (rule c3)
    apply (rule r3)
    done
qed

section \<open>The colour of a temperature\<close>

subsection \<open>Rounding\<close>

lemma rounding_exact: "rounding (\<lambda>x. x)"
  by (simp add: rounding_def)

lemma rounding_int:
  assumes "rounding rnd" and "\<bar>k\<bar> \<le> 9007199254740992"
  shows "rnd (of_int k) = of_int k"
  using assms by (simp add: rounding_def)

lemma rounding_numerals:
  assumes "rounding rnd"
  shows "rnd 0 = 0" "rnd 1 = 1" "rnd 55 = 55" "rnd 130 = 130" "rnd 60 = 60" "rnd 220 = 220"
  using rounding_int [OF assms, of 0] rounding_int [OF assms, of 1]
    rounding_int [OF assms, of 55] rounding_int [OF assms, of 130]
    rounding_int [OF assms, of 60] rounding_int [OF assms, of 220]
  by simp_all

lemma rounding_mono: "rounding rnd \<Longrightarrow> x \<le> y \<Longrightarrow> rnd x \<le> rnd y"
  by (simp add: rounding_def)

lemma rounding_round_1024: "rounding round_1024"
proof -
  have "round_1024 x \<le> round_1024 y" if "x \<le> y" for x y
  proof -
    from that have "round (x * 1024) \<le> round (y * 1024)" by (intro round_mono) simp
    then show ?thesis by (simp add: round_1024_def divide_right_mono)
  qed
  moreover have "round_1024 (of_int k) = of_int k" for k
  proof -
    have "round (real_of_int k * 1024) = k * 1024"
      using round_of_int [of "k * 1024"] by simp
    then show ?thesis by (simp add: round_1024_def)
  qed
  ultimately show ?thesis by (simp add: rounding_def)
qed

subsection \<open>The hue falls as the temperature rises\<close>

lemma bounds_cases:
  "bounds m = (- 20, 110) \<or> bounds m = (- 10, 45) \<or> bounds m = (260, 320)"
  by (simp add: bounds_def)

lemma hue_antimono:
  assumes r: "rounding rnd" and le: "t1 \<le> t2"
  shows "hue rnd m t2 \<le> hue rnd m t1"
proof -
  obtain mn mx where b: "bounds m = (mn, mx)" by (cases "bounds m")
  have w: "rnd (mx - mn) = mx - mn \<and> 0 < mx - mn"
    using bounds_cases [of m] b rounding_numerals [OF r] by auto
  let ?c1 = "max mn (min t1 mx)" and ?c2 = "max mn (min t2 mx)"
  from le have "?c1 - mn \<le> ?c2 - mn" by (simp add: max_def min_def)
  then have "rnd (?c1 - mn) \<le> rnd (?c2 - mn)" by (rule rounding_mono [OF r])
  with w have "rnd (?c1 - mn) / rnd (mx - mn) \<le> rnd (?c2 - mn) / rnd (mx - mn)"
    by (simp add: divide_right_mono)
  then have "rnd (rnd (?c1 - mn) / rnd (mx - mn)) \<le> rnd (rnd (?c2 - mn) / rnd (mx - mn))"
    (is "?r1 \<le> ?r2")
    by (rule rounding_mono [OF r])
  then have "1 - ?r2 \<le> 1 - ?r1" by simp
  then have "rnd (1 - ?r2) \<le> rnd (1 - ?r1)" by (rule rounding_mono [OF r])
  then have "rnd (1 - ?r2) * 220 \<le> rnd (1 - ?r1) * 220" by simp
  then have "rnd (rnd (1 - ?r2) * 220) \<le> rnd (rnd (1 - ?r1) * 220)"
    by (rule rounding_mono [OF r])
  then show ?thesis by (simp add: hue_def b)
qed

lemma hue_clamped:
  "bounds m = (mn, mx) \<Longrightarrow> hue rnd m t = hue rnd m (max mn (min t mx))"
  using bounds_cases [of m] by (auto simp: hue_def max_def min_def)

lemma floor_text_numerals:
  "floor_text 220 = ''220''" "floor_text 0 = ''0''" "floor_text 100 = ''100''"
  by (simp_all add: floor_text_def int_digits_def nat_digits.simps)

text \<open>
  Claim C5. With metric units the hue at temperature \<open>-10\<close> is 220 and at 45 it is 0,
  and the style carries these hues. In every unit system the hue never rises with the
  temperature (for all \<open>t1 \<le> t2\<close>, inside the bounds or not), and in exact arithmetic
  the hue is the linear function \<open>(1 - (t - min) / (max - min)) * 220\<close> of a
  temperature inside the bounds. The end points and the monotonicity hold for every
  rounding of the arithmetic that is monotone and exact on integers.
\<close>

theorem metric_hue:
  assumes "rounding rnd"
  shows "(units m = ''metric'' \<longrightarrow>
            hue rnd m (- 10) = 220 \<and> hue rnd m 45 = 0 \<and>
            tempStyle rnd str m (Some (- 10)) =
              [(''color'', ''hsl('' @ str 220 @ '', 70%, 25%)''),
               (''background-color'', ''hsl('' @ str 220 @ '', 85%, 90%)''),
               (''border-radius'', ''0.25rem''), (''padding'', ''0.25rem'')] \<and>
            tempStyle rnd str m (Some 45) =
              [(''color'', ''hsl('' @ str 0 @ '', 70%, 25%)''),
               (''background-color'', ''hsl('' @ str 0 @ '', 85%, 90%)''),
               (''border-radius'', ''0.25rem''), (''padding'', ''0.25rem'')]) \<and>
         (\<forall>t1 t2. t1 \<le> t2 \<longrightarrow> hue rnd m t2 \<le> hue rnd m t1) \<and>
         ((\<forall>x. rnd x = x) \<longrightarrow>
            (\<forall>t. fst (bounds m) \<le> t \<and> t \<le> snd (bounds m) \<longrightarrow>
               hue rnd m t =
                 (1 - (t - fst (bounds m)) / (snd (bounds m) - fst (bounds m))) * 220))"
proof (intro conjI impI)
  note n = rounding_numerals [OF assms]
  assume "units m = ''metric''"
  then have b: "bounds m = (- 10, 45)" by (simp add: bounds_def)
  show lo: "hue rnd m (- 10) = 220" by (simp add: hue_def b n)
  show hi: "hue rnd m 45 = 0" by (simp add: hue_def b n)
  show "tempStyle rnd str m (Some (- 10)) =
      [(''color'', ''hsl('' @ str 220 @ '', 70%, 25%)''),
       (''background-color'', ''hsl('' @ str 220 @ '', 85%, 90%)''),
       (''border-radius'', ''0.25rem''), (''padding'', ''0.25rem'')]"
    by (simp add: tempStyle_def lo)
  show "tempStyle rnd str m (Some 45) =
      [(''color'', ''hsl('' @ str 0 @ '', 70%, 25%)''),
       (''background-color'', ''hsl('' @ str 0 @ '', 85%, 90%)''),
       (''border-radius'', ''0.25rem''), (''padding'', ''0.25rem'')]"
    by (simp add: tempStyle_def hi)
next
  show "\<forall>t1 t2. t1 \<le> t2 \<longrightarrow> hue rnd m t2 \<le> hue rnd m t1"
    using hue_antimono [OF assms] by blast
next
  assume "\<forall>x. rnd x = x"
  then show "\<forall>t. fst (bounds m) \<le> t \<and> t \<le> snd (bounds m) \<longrightarrow>
      hue rnd m t = (1 - (t - fst (bounds m)) / (snd (bounds m) - fst (bounds m))) * 220"
    by (cases "bounds m") (simp add: hue_def max_def min_def)
qed

theorem metric_hue_witness:
  "rounding (\<lambda>x. x) \<and> units (initial_vm :: (unit, unit) vm) = ''metric'' \<and>
   hue (\<lambda>x. x) (initial_vm :: (unit, unit) vm) (- 10) = 220 \<and>
   hue (\<lambda>x. x) (initial_vm :: (unit, unit) vm) 45 = 0 \<and>
   (0 :: real) \<le> 20 \<and>
   hue (\<lambda>x. x) (initial_vm :: (unit, unit) vm) 20 \<le> hue (\<lambda>x. x) (initial_vm :: (unit, unit) vm) 0 \<and>
   fst (bounds (initial_vm :: (unit, unit) vm)) \<le> 20 \<and>
   20 \<le> snd (bounds (initial_vm :: (unit, unit) vm)) \<and>
   hue (\<lambda>x. x) (initial_vm :: (unit, unit) vm) 20 = 100 \<and>
   tempStyle (\<lambda>x. x) floor_text (initial_vm :: (unit, unit) vm) (Some (- 10)) =
     [(''color'', ''hsl(220, 70%, 25%)''), (''background-color'', ''hsl(220, 85%, 90%)''),
      (''border-radius'', ''0.25rem''), (''padding'', ''0.25rem'')]"
proof -
  let ?m = "initial_vm :: (unit, unit) vm"
  have u: "units ?m = ''metric''" by (simp add: initial_vm_def)
  have b: "bounds ?m = (- 10, 45)" by (simp add: bounds_def u)
  note inst = metric_hue [OF rounding_exact, of ?m floor_text]
  from inst u have ends: "hue (\<lambda>x. x) ?m (- 10) = 220" "hue (\<lambda>x. x) ?m 45 = 0"
    and style: "tempStyle (\<lambda>x. x) floor_text ?m (Some (- 10)) =
      [(''color'', ''hsl('' @ floor_text 220 @ '', 70%, 25%)''),
       (''background-color'', ''hsl('' @ floor_text 220 @ '', 85%, 90%)''),
       (''border-radius'', ''0.25rem''), (''padding'', ''0.25rem'')]"
    by simp_all
  from inst have anti: "hue (\<lambda>x. x) ?m 20 \<le> hue (\<lambda>x. x) ?m 0" by simp
  from inst have "fst (bounds ?m) \<le> 20 \<and> 20 \<le> snd (bounds ?m) \<longrightarrow>
      hue (\<lambda>x. x) ?m 20 = (1 - (20 - fst (bounds ?m)) / (snd (bounds ?m) - fst (bounds ?m))) * 220"
    by simp
  then have lin: "hue (\<lambda>x. x) ?m 20 = 100" by (simp add: b)
  show ?thesis
    using rounding_exact u ends anti lin style by (simp add: b floor_text_numerals)
qed

text \<open>
  Claim C6. For every unit system, with bounds \<open>mn\<close> and \<open>mx\<close>: a temperature below
  \<open>mn\<close> gets the style of \<open>mn\<close>, a temperature above \<open>mx\<close> the style of \<open>mx\<close>, and
  in general the hue and the style of a temperature are those of the temperature
  clamped to \<open>[mn, mx]\<close>.
\<close>

theorem clamping:
  assumes "bounds m = (mn, mx)"
  shows "(t < mn \<longrightarrow> tempStyle rnd str m (Some t) = tempStyle rnd str m (Some mn)) \<and>
         (mx < t \<longrightarrow> tempStyle rnd str m (Some t) = tempStyle rnd str m (Some mx)) \<and>
         hue rnd m t = hue rnd m (max mn (min t mx)) \<and>
         tempStyle rnd str m (Some t) = tempStyle rnd str m (Some (max mn (min t mx)))"
proof -
  have le: "mn \<le> mx" using bounds_cases [of m] assms by auto
  have c: "hue rnd m s = hue rnd m (max mn (min s mx))" for s
    by (rule hue_clamped [OF assms])
  have "t < mn \<longrightarrow> hue rnd m t = hue rnd m mn"
    using c [of t] c [of mn] le by (auto simp: max_def min_def)
  moreover have "mx < t \<longrightarrow> hue rnd m t = hue rnd m mx"
    using c [of t] c [of mx] le by (auto simp: max_def min_def)
  ultimately show ?thesis
    using c [of t] by (simp add: tempStyle_def)
qed


theorem clamping_witness:
  "bounds (initial_vm :: (unit, unit) vm) = (- 10, 45) \<and>
   (- 30 :: real) < - 10 \<and>
   tempStyle (\<lambda>x. x) floor_text (initial_vm :: (unit, unit) vm) (Some (- 30)) =
     tempStyle (\<lambda>x. x) floor_text (initial_vm :: (unit, unit) vm) (Some (- 10)) \<and>
   (45 :: real) < 50 \<and>
   tempStyle (\<lambda>x. x) floor_text (initial_vm :: (unit, unit) vm) (Some 50) =
     tempStyle (\<lambda>x. x) floor_text (initial_vm :: (unit, unit) vm) (Some 45) \<and>
   tempStyle (\<lambda>x. x) floor_text (initial_vm :: (unit, unit) vm) (Some 50) =
     [(''color'', ''hsl(0, 70%, 25%)''), (''background-color'', ''hsl(0, 85%, 90%)''),
      (''border-radius'', ''0.25rem''), (''padding'', ''0.25rem'')]"
proof -
  let ?m = "initial_vm :: (unit, unit) vm"
  have b: "bounds ?m = (- 10, 45)" by (simp add: bounds_def initial_vm_def)
  from clamping [OF b, of "- 30" "\<lambda>x. x" floor_text]
  have lo: "tempStyle (\<lambda>x. x) floor_text ?m (Some (- 30)) =
      tempStyle (\<lambda>x. x) floor_text ?m (Some (- 10))"
    by simp
  from clamping [OF b, of 50 "\<lambda>x. x" floor_text]
  have hi: "tempStyle (\<lambda>x. x) floor_text ?m (Some 50) =
      tempStyle (\<lambda>x. x) floor_text ?m (Some 45)"
    by simp
  have "tempStyle (\<lambda>x. x) floor_text ?m (Some 45) =
     [(''color'', ''hsl(0, 70%, 25%)''), (''background-color'', ''hsl(0, 85%, 90%)''),
      (''border-radius'', ''0.25rem''), (''padding'', ''0.25rem'')]"
    by (simp add: tempStyle_def hue_def b floor_text_numerals)
  with b lo hi show ?thesis by simp
qed

text \<open>
  Claim C7. For every value of \<^verbatim>\<open>vm.units\<close> other than \<^verbatim>\<open>"imperial"\<close> and
  \<^verbatim>\<open>"metric"\<close> the bounds are 260 and 320, the hue is computed from them, and the
  style of every temperature is the one the value \<^verbatim>\<open>"standard"\<close> gives: an
  unrecognized value falls back to the standard domain, and nothing fails.
\<close>

theorem unrecognized_units_standard:
  assumes "units m \<noteq> ''imperial''" and "units m \<noteq> ''metric''"
  shows "bounds m = (260, 320) \<and>
         hue rnd m t = rnd (rnd (1 - rnd (rnd (max 260 (min t 320) - 260) / rnd (320 - 260))) * 220) \<and>
         tempStyle rnd str m temp = tempStyle rnd str (m\<lparr>units := ''standard''\<rparr>) temp"
  using assms by (simp add: bounds_def hue_def tempStyle_def split: option.splits)

theorem unrecognized_units_standard_witness:
  "units ((initial_vm :: (unit, unit) vm)\<lparr>units := ''kelvin''\<rparr>) \<noteq> ''imperial'' \<and>
   units ((initial_vm :: (unit, unit) vm)\<lparr>units := ''kelvin''\<rparr>) \<noteq> ''metric'' \<and>
   bounds ((initial_vm :: (unit, unit) vm)\<lparr>units := ''kelvin''\<rparr>) = (260, 320) \<and>
   tempStyle (\<lambda>x. x) floor_text ((initial_vm :: (unit, unit) vm)\<lparr>units := ''kelvin''\<rparr>) (Some 260) =
     [(''color'', ''hsl(220, 70%, 25%)''), (''background-color'', ''hsl(220, 85%, 90%)''),
      (''border-radius'', ''0.25rem''), (''padding'', ''0.25rem'')]"
proof -
  let ?m = "(initial_vm :: (unit, unit) vm)\<lparr>units := ''kelvin''\<rparr>"
  have u: "units ?m \<noteq> ''imperial''" "units ?m \<noteq> ''metric''" by simp_all
  from unrecognized_units_standard [OF u, of "\<lambda>x. x" 260 floor_text "Some 260"]
  have "bounds ?m = (260, 320)" and "hue (\<lambda>x. x) ?m 260 = 220"
    by simp_all
  then show ?thesis
    using u by (simp add: tempStyle_def floor_text_numerals)
qed

text \<open>
  Claim C10. For every value of \<^verbatim>\<open>vm.units\<close> other than \<^verbatim>\<open>"imperial"\<close> and
  \<^verbatim>\<open>"standard"\<close> the unit label is the metric one, the degree sign followed by
  \<^verbatim>\<open>C\<close>. When the value is not \<^verbatim>\<open>"metric"\<close> either, the temperature is coloured with
  the standard bounds 260 and 320: an unrecognized unit system is labelled as metric
  and coloured as standard.
\<close>

theorem unrecognized_units_label:
  assumes "units m \<noteq> ''imperial''" and "units m \<noteq> ''standard''"
  shows "unitsLabel m = [CHR 0xC2, CHR 0xB0] @ ''C'' \<and>
         unitsLabel m = unitsLabel (m\<lparr>units := ''metric''\<rparr>) \<and>
         (units m \<noteq> ''metric'' \<longrightarrow>
            bounds m = (260, 320) \<and>
            tempStyle rnd str m temp = tempStyle rnd str (m\<lparr>units := ''standard''\<rparr>) temp)"
  using assms by (simp add: unitsLabel_def bounds_def hue_def tempStyle_def split: option.splits)

theorem unrecognized_units_label_witness:
  "units ((initial_vm :: (unit, unit) vm)\<lparr>units := ''kelvin''\<rparr>) \<noteq> ''imperial'' \<and>
   units ((initial_vm :: (unit, unit) vm)\<lparr>units := ''kelvin''\<rparr>) \<noteq> ''standard'' \<and>
   units ((initial_vm :: (unit, unit) vm)\<lparr>units := ''kelvin''\<rparr>) \<noteq> ''metric'' \<and>
   unitsLabel ((initial_vm :: (unit, unit) vm)\<lparr>units := ''kelvin''\<rparr>) = [CHR 0xC2, CHR 0xB0, CHR ''C''] \<and>
   bounds ((initial_vm :: (unit, unit) vm)\<lparr>units := ''kelvin''\<rparr>) = (260, 320)"
proof -
  let ?m = "(initial_vm :: (unit, unit) vm)\<lparr>units := ''kelvin''\<rparr>"
  have u: "units ?m \<noteq> ''imperial''" "units ?m \<noteq> ''standard''" by simp_all
  from unrecognized_units_label [OF u, of "\<lambda>x. x" floor_text None]
  show ?thesis by simp
qed


section \<open>The place name\<close>

text \<open>
  Claim C9. The place name is made of the components among name, state and country
  that are present and not empty, in that order, joined by a comma and a space; when
  there is none, or no place record at all, it is the placeholder
  \<^verbatim>\<open>Your location\<close>.
\<close>

theorem place_name:
  "placeName m =
     (case components (place (data m)) of
        [] \<Rightarrow> ''Your location''
      | c # cs \<Rightarrow> c @ concat (map (\<lambda>s. '', '' @ s) cs))"
  by (auto simp: placeName_def components_def present_def Boolean_def element_text_def Let_def
      split: option.splits)

theorem place_name_witness:
  "placeName ((initial_vm :: (unit, unit) vm)\<lparr>data := empty_data\<lparr>place :=
      Some \<lparr>name = Some ''Sagar'', state = Some '''', country = Some ''IN''\<rparr>\<rparr>\<rparr>) = ''Sagar, IN'' \<and>
   placeName ((initial_vm :: (unit, unit) vm)\<lparr>data := empty_data\<lparr>place :=
      Some \<lparr>name = Some ''Austin'', state = Some ''Texas'', country = Some ''US''\<rparr>\<rparr>\<rparr>) =
     ''Austin, Texas, US'' \<and>
   placeName ((initial_vm :: (unit, unit) vm)\<lparr>data := empty_data\<lparr>place :=
      Some \<lparr>name = None, state = Some '''', country = None\<rparr>\<rparr>\<rparr>) = ''Your location'' \<and>
   placeName (initial_vm :: (unit, unit) vm) = ''Your location''"
  by (simp add: place_name components_def present_def initial_vm_def empty_data_def)


section \<open>Absent and empty inputs\<close>

lemma consider_hour_best:
  "fst (consider_hour x h sh st) = fst st \<or> fst (consider_hour x h sh st) = Some x"
  by (simp add: consider_hour_def Let_def)

lemma fold_consider_hour_best:
  "fst (fold (consider_hour x h) hs st) = fst st \<or> fst (fold (consider_hour x h) hs st) = Some x"
proof (induction hs arbitrary: st)
  case Nil
  show ?case by simp
next
  case (Cons sh hs)
  from Cons [of "consider_hour x h sh st"] consider_hour_best [of x h sh st]
  show ?case by auto
qed

lemma fold_consider_item_best:
  "set_option (fst (fold (consider_item v hs) xs st)) \<subseteq> set_option (fst st) \<union> set xs"
proof (induction xs arbitrary: st)
  case Nil
  show ?case by simp
next
  case (Cons x xs)
  from fold_consider_hour_best [of x "getHours v (new_Date (dt x * 1000))" hs st]
  have "set_option (fst (consider_item v hs x st)) \<subseteq> set_option (fst st) \<union> {x}"
    by (auto simp: consider_item_def)
  with Cons [of "consider_item v hs x st"] show ?case by auto
qed

lemma findForecastForSlot_member:
  "set_option (findForecastForSlot v (Some xs) sl) \<subseteq> set xs"
  using fold_consider_item_best [of v _ xs "(None, Infinity)"]
  by (auto simp: findForecastForSlot_def split: option.splits)

lemma length_buildGroupedForecast: "length (buildGroupedForecast v its) \<le> 5"
  by (simp add: buildGroupedForecast_def split: option.splits)

text \<open>
  Claim C8. \<^verbatim>\<open>buildGroupedForecast\<close>, \<^verbatim>\<open>findForecastForSlot\<close> and \<^verbatim>\<open>tempStyle\<close>
  have a result for every input of their domain: the source has no \<^verbatim>\<open>throw\<close> and
  reads no property of a value that can be absent there, so the functions of the model
  have no error result. The grouping of an absent or empty list is the empty list; the
  match is \<^verbatim>\<open>null\<close> for an absent or empty list of items with any slot, and for a
  slot with absent or empty hours with any items; the style of an absent temperature
  is the empty object. For the other inputs the result is a value of the expected
  form: at most five buckets, \<^verbatim>\<open>null\<close> or an item of the list, a style with the
  four properties.
\<close>

theorem helpers_total:
  fixes its :: "'a sample_scheme list option" and xs :: "'a sample_scheme list"
  shows
  "buildGroupedForecast v (None :: 'a sample_scheme list option) = [] \<and>
   buildGroupedForecast v (Some ([] :: 'a sample_scheme list)) = [] \<and>
   findForecastForSlot v (None :: 'a sample_scheme list option) sl = None \<and>
   findForecastForSlot v (Some ([] :: 'a sample_scheme list)) sl = None \<and>
   findForecastForSlot v its (sl\<lparr>hours := None\<rparr>) = None \<and>
   findForecastForSlot v its (sl\<lparr>hours := Some []\<rparr>) = None \<and>
   tempStyle rnd str m None = [] \<and>
   length (buildGroupedForecast v its) \<le> 5 \<and>
   set_option (findForecastForSlot v (Some xs) sl) \<subseteq> set xs \<and>
   map fst (tempStyle rnd str m (Some t)) =
     [''color'', ''background-color'', ''border-radius'', ''padding'']"
proof (intro conjI)
  show "buildGroupedForecast v (None :: 'a sample_scheme list option) = []"
    and "buildGroupedForecast v (Some ([] :: 'a sample_scheme list)) = []"
    by (simp_all add: buildGroupedForecast_def)
  show "findForecastForSlot v (None :: 'a sample_scheme list option) sl = None"
    and "findForecastForSlot v (Some ([] :: 'a sample_scheme list)) sl = None"
    by (simp_all add: findForecastForSlot_def split: option.splits)
  show "findForecastForSlot v its (sl\<lparr>hours := None\<rparr>) = None"
    and "findForecastForSlot v its (sl\<lparr>hours := Some []\<rparr>) = None"
    by (simp_all add: findForecastForSlot_def fold_no_hours split: option.splits)
  show "tempStyle rnd str m None = []"
    and "map fst (tempStyle rnd str m (Some t)) =
      [''color'', ''background-color'', ''border-radius'', ''padding'']"
    by (simp_all add: tempStyle_def)
  show "length (buildGroupedForecast v its) \<le> 5"
    by (rule length_buildGroupedForecast)
  show "set_option (findForecastForSlot v (Some xs) sl) \<subseteq> set xs"
    by (rule findForecastForSlot_member)
qed

theorem helpers_total_witness:
  "buildGroupedForecast utc_en_US (None :: sample list option) = [] \<and>
   buildGroupedForecast utc_en_US (Some ([] :: sample list)) = [] \<and>
   findForecastForSlot utc_en_US (Some ([] :: sample list)) (buildTimeSlots ! 3) = None \<and>
   findForecastForSlot utc_en_US (Some six_days) \<lparr>slot_label = ''Never'', hours = Some []\<rparr> = None \<and>
   findForecastForSlot utc_en_US (Some six_days) \<lparr>slot_label = ''Never'', hours = None\<rparr> = None \<and>
   tempStyle round_1024 floor_text (initial_vm :: (unit, unit) vm) None = []"
  using helpers_total [of utc_en_US "buildTimeSlots ! 3" "Some six_days" round_1024 floor_text
      "initial_vm :: (unit, unit) vm" six_days 0]
    helpers_total [of utc_en_US "\<lparr>slot_label = ''Never'', hours = Some []\<rparr>" "Some six_days"
      round_1024 floor_text "initial_vm :: (unit, unit) vm" six_days 0]
  by simp

section \<open>A failed search\<close>

text \<open>
  What a search does when the request is rejected, and when it resolves without
  current conditions.
\<close>

lemma search_rejected:
  "groupedForecast (search v (Rejected err) m) = groupedForecast m \<and>
   data (search v (Rejected err) m) = data m \<and>
   slots (search v (Rejected err) m) = slots m \<and>
   loading (search v (Rejected err) m) = False \<and>
   error (search v (Rejected err) m) =
     Some (case err of
             Response (Some msg) \<Rightarrow> if msg \<noteq> [] then msg else ''Failed to load weather.''
           | Response None \<Rightarrow> ''Failed to load weather.''
           | TypeError \<Rightarrow> ''Failed to load weather.'')"
  by (simp add: search_def search_settle_def search_begin_def on_rejected_def on_finally_def)

lemma search_no_data:
  assumes "d = None \<or> (\<exists>p. d = Some p \<and> current p = None)"
  shows "groupedForecast (search v (Resolved d) m) = [] \<and>
         slots (search v (Resolved d) m) = [] \<and>
         data (search v (Resolved d) m) = empty_data \<and>
         loading (search v (Resolved d) m) = False \<and>
         error (search v (Resolved d) m) = Some ''No weather data found.''"
  using assms
  by (auto simp: search_def search_settle_def search_begin_def on_fulfilled_def no_data_def
      on_finally_def)

text \<open>
  Claim C1 asks that every failed search empties \<^verbatim>\<open>vm.groupedForecast\<close>, sets an
  error message and stops the loading indicator. A search that resolves without
  current conditions does (\<open>search_no_data\<close>). A rejected search sets the message and
  stops the indicator but leaves the grid as it was (\<open>search_rejected\<close>): after a
  successful search for a forecast of one item, a rejected search still shows the
  bucket of that item.
\<close>

theorem search_rejected_keeps_grid:
  "groupedForecast
     (search utc_en_US (Resolved (Some \<lparr>forecast = Some \<lparr>list_of = Some [\<lparr>dt = 0\<rparr>]\<rparr>,
        current = Some (), place = None\<rparr>)) initial_vm) =
     [\<lparr>label = ''Thu, Jan 1'', items = [\<lparr>dt = 0\<rparr>]\<rparr>] \<and>
   groupedForecast
     (search utc_en_US (Rejected (Response None))
       (search utc_en_US (Resolved (Some \<lparr>forecast = Some \<lparr>list_of = Some [\<lparr>dt = 0\<rparr>]\<rparr>,
          current = Some (), place = None\<rparr>)) initial_vm)) =
     [\<lparr>label = ''Thu, Jan 1'', items = [\<lparr>dt = 0\<rparr>]\<rparr>] \<and>
   error
     (search utc_en_US (Rejected (Response None))
       (search utc_en_US (Resolved (Some \<lparr>forecast = Some \<lparr>list_of = Some [\<lparr>dt = 0\<rparr>]\<rparr>,
          current = Some (), place = None\<rparr>)) initial_vm)) = Some ''Failed to load weather.'' \<and>
   loading
     (search utc_en_US (Rejected (Response None))
       (search utc_en_US (Resolved (Some \<lparr>forecast = Some \<lparr>list_of = Some [\<lparr>dt = 0\<rparr>]\<rparr>,
          current = Some (), place = None\<rparr>)) initial_vm)) = False"
proof -
  have k: "dayKey utc_en_US (new_Date 0) = ''1970-1-1''"
    by (simp add: dayKey_def new_Date_def utc_fields civil_1970 int_digits_def
        nat_digits_lt10 nat_digits_ge10)
  have l: "toLocaleDateString utc_en_US (new_Date 0) = ''Thu, Jan 1''"
    by (simp add: new_Date_def utc_fields civil_1970 weekday_names_def month_names_def
        nat_digits_lt10)
  have g: "buildGroupedForecast utc_en_US (Some [\<lparr>dt = 0\<rparr>]) =
      [\<lparr>label = ''Thu, Jan 1'', items = [\<lparr>dt = 0\<rparr>]\<rparr>]"
    by (simp add: buildGroupedForecast_def group_item_def k l)
  show ?thesis
    by (simp add: search_def search_settle_def search_begin_def on_fulfilled_def on_rejected_def
        on_finally_def g)
qed


end
